theory Spec2Isabelle
  imports Complex_Main "HOL-Library.Char_ord" "HOL-Library.List_Lexorder"
    "HOL-Library.Extended_Nat" "HOL-Library.Multiset"
begin

section \<open>Python dictionaries\<close>

text \<open>
  A Python \<open>dict\<close> keeps its keys in insertion order, and several functions of the
  timetable program depend on the order in which \<open>items()\<close> yields the entries.  A
  dictionary is therefore an association list whose keys are pairwise distinct:
  \<open>d[k] = v\<close> overwrites in place when \<open>k\<close> is present and appends otherwise,
  \<open>del d[k]\<close> removes the entry (and raises \<open>KeyError\<close> when there is none, which the
  caller models), \<open>d.get(k, default)\<close> never raises.
\<close>

type_synonym ('k, 'v) pydict = "('k \<times> 'v) list"

datatype py_error = KeyError | ValueError | IndexError

definition dict_contains :: "('k, 'v) pydict \<Rightarrow> 'k \<Rightarrow> bool" where
  "dict_contains d k = (k \<in> set (map fst d))"

fun dict_set :: "('k, 'v) pydict \<Rightarrow> 'k \<Rightarrow> 'v \<Rightarrow> ('k, 'v) pydict" where
  "dict_set [] k v = [(k, v)]"
| "dict_set ((k', v') # d) k v =
     (if k' = k then (k', v) # d else (k', v') # dict_set d k v)"

definition dict_del :: "('k, 'v) pydict \<Rightarrow> 'k \<Rightarrow> ('k, 'v) pydict" where
  "dict_del d k = filter (\<lambda>kv. fst kv \<noteq> k) d"

definition dict_get :: "('k, 'v) pydict \<Rightarrow> 'k \<Rightarrow> 'v option" where
  "dict_get d k = map_of d k"

definition dict_get_default :: "('k, 'v) pydict \<Rightarrow> 'k \<Rightarrow> 'v \<Rightarrow> 'v" where
  "dict_get_default d k dflt = (case map_of d k of None \<Rightarrow> dflt | Some v \<Rightarrow> v)"

text \<open>
  The grouping idiom of the program,
  \<^verbatim>\<open>if key not in schedule: schedule[key] = []\<close> followed by
  \<^verbatim>\<open>schedule[key].append(x)\<close>: the entry of an existing key grows at its end, a
  new key is appended to the dictionary.
\<close>

fun group_append :: "('k, 'v list) pydict \<Rightarrow> 'k \<Rightarrow> 'v \<Rightarrow> ('k, 'v list) pydict" where
  "group_append [] k v = [(k, [v])]"
| "group_append ((k', vs) # g) k v =
     (if k' = k then (k', vs @ [v]) # g else (k', vs) # group_append g k v)"

section \<open>Entity model (models.py)\<close>

text \<open>
  \<open>str(n)\<close> of a Python integer, as used by the f-string of
  \<open>Lecture.get_variable_name\<close>.
\<close>

fun digit_char :: "nat \<Rightarrow> char" where
  "digit_char n = char_of (48 + n)"

function str_nat :: "nat \<Rightarrow> string" where
  "str_nat n = (if n < 10 then [digit_char n] else str_nat (n div 10) @ [digit_char (n mod 10)])"
  by pat_completeness auto
termination
  by (relation "measure id") auto

definition str_int :: "int \<Rightarrow> string" where
  "str_int i = (if i < 0 then CHR ''-'' # str_nat (nat (- i)) else str_nat (nat i))"

record lecture =
  course_id :: string
  section_id :: string
  lecture_number :: int
  timeslot_id :: "string option"
  room_id :: "string option"
  instructor_id :: "string option"

definition Lecture :: "string \<Rightarrow> string \<Rightarrow> int \<Rightarrow> lecture" where
  "Lecture c s n = \<lparr>course_id = c, section_id = s, lecture_number = n,
     timeslot_id = None, room_id = None, instructor_id = None\<rparr>"

definition get_variable_name :: "lecture \<Rightarrow> string" where
  "get_variable_name l =
     section_id l @ ''_'' @ course_id l @ ''_L'' @ str_int (lecture_number l)"

section \<open>Hard constraints (constraints.py)\<close>

text \<open>An assignment value is the triple \<open>(timeslot, room, instructor)\<close>.\<close>

type_synonym csp_value = "string \<times> string \<times> string"
type_synonym assignment = "(string, csp_value) pydict"

definition instructor_schedule :: "assignment \<Rightarrow> (string \<times> string, string list) pydict" where
  "instructor_schedule a =
     foldl (\<lambda>g (var_name, (timeslot, room, instructor)).
              group_append g (instructor, timeslot) var_name) [] a"

definition no_instructor_conflict :: "assignment \<Rightarrow> bool" where
  "no_instructor_conflict a =
     list_all (\<lambda>(key, lectures). \<not> length lectures > 1) (instructor_schedule a)"

definition room_schedule :: "assignment \<Rightarrow> (string \<times> string, string list) pydict" where
  "room_schedule a =
     foldl (\<lambda>g (var_name, (timeslot, room, instructor)).
              group_append g (room, timeslot) var_name) [] a"

definition no_room_conflict :: "assignment \<Rightarrow> bool" where
  "no_room_conflict a =
     list_all (\<lambda>(key, lectures). \<not> length lectures > 1) (room_schedule a)"

definition var_to_section :: "lecture list \<Rightarrow> (string, string) pydict" where
  "var_to_section lectures =
     foldl (\<lambda>m l. dict_set m (get_variable_name l) (section_id l)) [] lectures"

text \<open>
  \<open>no_student_conflict\<close> skips an entry only when its variable is unknown
  (\<open>section_id is None\<close>).
\<close>

definition student_schedule :: "assignment \<Rightarrow> lecture list \<Rightarrow> (string \<times> string, string list) pydict" where
  "student_schedule a lectures =
     foldl (\<lambda>g (var_name, (timeslot, room, instructor)).
              case dict_get (var_to_section lectures) var_name of
                None \<Rightarrow> g
              | Some sec \<Rightarrow> group_append g (sec, timeslot) var_name) [] a"

definition no_student_conflict :: "assignment \<Rightarrow> lecture list \<Rightarrow> bool" where
  "no_student_conflict a lectures =
     list_all (\<lambda>(key, lectures_list). \<not> length lectures_list > 1) (student_schedule a lectures)"

definition check_all_constraints :: "assignment \<Rightarrow> lecture list \<Rightarrow> bool" where
  "check_all_constraints a lectures =
     (no_instructor_conflict a \<and> no_room_conflict a \<and> no_student_conflict a lectures)"

definition is_consistent :: "string \<Rightarrow> csp_value \<Rightarrow> assignment \<Rightarrow> lecture list \<Rightarrow> bool" where
  "is_consistent var_name v a lectures =
     check_all_constraints (dict_set a var_name v) lectures"

text \<open>
  \<open>get_conflicts\<close> returns one formatted message per overbooked key.  A message is
  kept as the data it is formatted from: the kind, the resource, the timeslot and the
  list of colliding variables.  Its section pass tests \<open>if section_id:\<close>, so it also
  skips a variable whose section is the empty string.
\<close>

datatype conflict =
    InstructorConflict string string "string list"
  | RoomConflict string string "string list"
  | SectionConflict string string "string list"

definition conflict_section_schedule :: "assignment \<Rightarrow> lecture list \<Rightarrow> (string \<times> string, string list) pydict" where
  "conflict_section_schedule a lectures =
     foldl (\<lambda>g (var_name, (timeslot, room, instructor)).
              case dict_get (var_to_section lectures) var_name of
                None \<Rightarrow> g
              | Some sec \<Rightarrow> if sec \<noteq> [] then group_append g (sec, timeslot) var_name else g) [] a"

definition get_conflicts :: "assignment \<Rightarrow> lecture list \<Rightarrow> conflict list" where
  "get_conflicts a lectures =
     map (\<lambda>((instructor, timeslot), ls). InstructorConflict instructor timeslot ls)
       (filter (\<lambda>(key, ls). length ls > 1) (instructor_schedule a))
     @ map (\<lambda>((room, timeslot), ls). RoomConflict room timeslot ls)
       (filter (\<lambda>(key, ls). length ls > 1) (room_schedule a))
     @ map (\<lambda>((sec, timeslot), ls). SectionConflict sec timeslot ls)
       (filter (\<lambda>(key, ls). length ls > 1) (conflict_section_schedule a lectures))"

section \<open>Search engine (solver.py)\<close>

text \<open>
  The solver reads two things that are not functions of its arguments: the wall clock
  and the random source.  Each call of \<open>_backtrack\<close> increments \<open>iterations\<close> first,
  reads the clock once and shuffles at most once, so both are given as oracles indexed
  by the iteration counter: \<open>clock env i\<close> is the value of \<open>time.time()\<close> read by the
  call that set \<open>iterations\<close> to \<open>i\<close>, \<open>clock env 0\<close> is \<open>start_time\<close>, and
  \<open>shuffle env i xs\<close> is the order \<open>random.shuffle\<close> leaves a copy of \<open>xs\<close> in during
  that call.  Clock readings are real numbers.
\<close>

record env =
  clock :: "nat \<Rightarrow> real"
  shuffle :: "nat \<Rightarrow> csp_value list \<Rightarrow> csp_value list"

text \<open>What \<open>random.shuffle\<close> guarantees: the result is a rearrangement of its input.\<close>

definition shuffle_ok :: "env \<Rightarrow> bool" where
  "shuffle_ok e = (\<forall>i xs. mset (shuffle e i xs) = mset xs)"

text \<open>The lines the search prints; the banner lines of \<open>solve\<close> carry no data.\<close>

datatype message =
    TimeoutReached
  | Progress nat nat nat
  | SolutionFound
  | NoSolutionFound

record solver_state =
  assignment :: assignment
  iterations :: nat
  printed :: "message list"

definition remaining_values :: "lecture list \<Rightarrow> (string, csp_value list) pydict \<Rightarrow> assignment \<Rightarrow> string \<Rightarrow> nat" where
  "remaining_values lectures domains a var_name =
     length (filter (\<lambda>v. is_consistent var_name v a lectures)
               (dict_get_default domains var_name []))"

fun mrv_loop :: "(string \<Rightarrow> nat) \<Rightarrow> string list \<Rightarrow> enat \<times> string option \<Rightarrow> enat \<times> string option" where
  "mrv_loop rem [] mb = mb"
| "mrv_loop rem (var_name # vs) (min_remaining, best_var) =
     (if enat (rem var_name) < min_remaining
      then mrv_loop rem vs (enat (rem var_name), Some var_name)
      else mrv_loop rem vs (min_remaining, best_var))"

definition unassigned_vars :: "lecture list \<Rightarrow> assignment \<Rightarrow> string list" where
  "unassigned_vars lectures a =
     filter (\<lambda>var_name. \<not> dict_contains a var_name) (map get_variable_name lectures)"

definition select_unassigned_variable :: "lecture list \<Rightarrow> (string, csp_value list) pydict \<Rightarrow> assignment \<Rightarrow> string option" where
  "select_unassigned_variable lectures domains a =
     (let unassigned = unassigned_vars lectures a in
      if unassigned = [] then None
      else snd (mrv_loop (remaining_values lectures domains a) unassigned (\<infinity>, None)))"

definition order_domain_values :: "env \<Rightarrow> nat \<Rightarrow> csp_value list \<Rightarrow> csp_value list" where
  "order_domain_values e i domain = shuffle e i domain"

text \<open>
  The recursion of \<open>_backtrack\<close> is bounded by a depth budget: the first argument is
  the number of nested calls still allowed, and \<open>None\<close> means that the budget ran out.
  \<open>Some (r, st)\<close> is a call that returned (\<open>r = Inr x\<close>) or raised (\<open>r = Inl e\<close>) and
  left the solver in state \<open>st\<close>.
\<close>

type_synonym search_result = "((py_error + assignment option) \<times> solver_state) option"

function (sequential) backtrack :: "nat \<Rightarrow> lecture list \<Rightarrow> (string, csp_value list) pydict \<Rightarrow> env \<Rightarrow> int \<Rightarrow> solver_state \<Rightarrow> search_result"
and try_values :: "nat \<Rightarrow> lecture list \<Rightarrow> (string, csp_value list) pydict \<Rightarrow> env \<Rightarrow> int \<Rightarrow> string \<Rightarrow> csp_value list \<Rightarrow> solver_state \<Rightarrow> search_result"
where
  "backtrack fuel lectures domains e timeout st =
     (let st1 = st\<lparr>iterations := iterations st + 1\<rparr> in
      if clock e (iterations st1) - clock e 0 > real_of_int timeout
      then Some (Inr None, st1\<lparr>printed := printed st1 @ [TimeoutReached]\<rparr>)
      else
        let st2 = (if iterations st1 mod 100 = 0
                   then st1\<lparr>printed := printed st1 @
                          [Progress (length (assignment st1)) (length lectures) (iterations st1)]\<rparr>
                   else st1) in
        if length (assignment st2) = length lectures
        then Some (Inr (Some (assignment st2)), st2)
        else
          (case select_unassigned_variable lectures domains (assignment st2) of
             None \<Rightarrow> Some (Inr None, st2)
           | Some var_name \<Rightarrow>
               try_values fuel lectures domains e timeout var_name
                 (order_domain_values e (iterations st2) (dict_get_default domains var_name []))
                 st2))"
| "try_values fuel lectures domains e timeout var_name [] st = Some (Inr None, st)"
| "try_values fuel lectures domains e timeout var_name (v # vs) st =
     (if is_consistent var_name v (assignment st) lectures
      then
        (case fuel of
           0 \<Rightarrow> None
         | Suc fuel' \<Rightarrow>
            (case backtrack fuel' lectures domains e timeout
                    (st\<lparr>assignment := dict_set (assignment st) var_name v\<rparr>) of
               None \<Rightarrow> None
             | Some (Inl err, st') \<Rightarrow> Some (Inl err, st')
             | Some (Inr (Some sol), st') \<Rightarrow> Some (Inr (Some sol), st')
             | Some (Inr None, st') \<Rightarrow>
                 if dict_contains (assignment st') var_name
                 then try_values fuel lectures domains e timeout var_name vs
                        (st'\<lparr>assignment := dict_del (assignment st') var_name\<rparr>)
                 else Some (Inl KeyError, st')))
      else try_values fuel lectures domains e timeout var_name vs st)"
  by pat_completeness auto
termination
  by (relation "inv_image (less_than <*lex*> less_than <*lex*> less_than)
        (\<lambda>x. case x of
           Inl (fuel, lectures, domains, e, timeout, st) \<Rightarrow> (fuel, Suc 0, 0)
         | Inr (fuel, lectures, domains, e, timeout, var_name, vs, st) \<Rightarrow> (fuel, 0, length vs))")
    auto

definition initial_state :: solver_state where
  "initial_state = \<lparr>assignment = [], iterations = 0, printed = []\<rparr>"

text \<open>
  \<open>solve\<close> resets the state, searches, and prints ``SOLUTION FOUND'' when the result
  is truthy (neither \<open>None\<close> nor the empty dictionary) and ``NO SOLUTION FOUND''
  otherwise.  No nested call is made without an unassigned lecture, so a depth budget
  of \<open>len(self.lectures)\<close> is never used up (\<open>solve_returns\<close> below).
\<close>

definition solve :: "lecture list \<Rightarrow> (string, csp_value list) pydict \<Rightarrow> env \<Rightarrow> int \<Rightarrow> search_result" where
  "solve lectures domains e timeout =
     (case backtrack (length lectures) lectures domains e timeout initial_state of
        None \<Rightarrow> None
      | Some (Inl err, st) \<Rightarrow> Some (Inl err, st)
      | Some (Inr result, st) \<Rightarrow>
          Some (Inr result,
            st\<lparr>printed := printed st @
                 [if result \<noteq> None \<and> result \<noteq> Some [] then SolutionFound else NoSolutionFound]\<rparr>))"

section \<open>Reference tables (data\_loader.py)\<close>

text \<open>
  The loader holds five tables read from CSV files.  A table is the list of its rows,
  a row the record of the columns the program reads; every cell is a string, except
  the credit count.
\<close>

record course_row =
  CourseID :: string
  Credits :: int
  Course_Type :: string

record instructor_row =
  InstructorID :: string
  PreferredSlots :: string
  QualifiedCourses :: string

record room_row =
  RoomID :: string
  Room_Type :: string

record timeslot_row =
  TimeSlotID :: string
  Day :: string

record section_row =
  SectionID :: string
  Courses :: string

record data_loader =
  courses :: "course_row list"
  instructors :: "instructor_row list"
  rooms :: "room_row list"
  timeslots :: "timeslot_row list"
  sections :: "section_row list"

text \<open>The string methods the loader uses: \<open>split(',')\<close>, \<open>strip()\<close>, \<open>in\<close>, \<open>replace\<close>.\<close>

fun split_on :: "char \<Rightarrow> string \<Rightarrow> string list" where
  "split_on c [] = [[]]"
| "split_on c (x # xs) =
     (if x = c then [] # split_on c xs
      else (case split_on c xs of [] \<Rightarrow> [[x]] | w # ws \<Rightarrow> (x # w) # ws))"

definition is_space :: "char \<Rightarrow> bool" where
  "is_space c = (of_char c \<in> {9, 10, 11, 12, 13, 28, 29, 30, 31, 32, 133, 160 :: nat})"

definition strip :: "string \<Rightarrow> string" where
  "strip s = rev (dropWhile is_space (rev (dropWhile is_space s)))"

fun starts_with :: "string \<Rightarrow> string \<Rightarrow> bool" where
  "starts_with s [] = True"
| "starts_with [] (p # ps) = False"
| "starts_with (x # xs) (p # ps) = (x = p \<and> starts_with xs ps)"

fun str_contains :: "string \<Rightarrow> string \<Rightarrow> bool" where
  "str_contains [] sub = (sub = [])"
| "str_contains (x # xs) sub = (starts_with (x # xs) sub \<or> str_contains xs sub)"

text \<open>\<open>s.replace(old, '')\<close> for a non-empty \<open>old\<close>.\<close>

function str_remove :: "string \<Rightarrow> string \<Rightarrow> string" where
  "str_remove old [] = []"
| "str_remove old (x # xs) =
     (if old \<noteq> [] \<and> starts_with (x # xs) old
      then str_remove old (drop (length old) (x # xs))
      else x # str_remove old xs)"
  by pat_completeness auto
termination
  by (relation "measure (\<lambda>(old, s). length s)") auto

definition get_course_info :: "data_loader \<Rightarrow> string \<Rightarrow> course_row option" where
  "get_course_info ld cid = find (\<lambda>c. CourseID c = cid) (courses ld)"

definition get_qualified_instructors :: "data_loader \<Rightarrow> string \<Rightarrow> string list" where
  "get_qualified_instructors ld cid =
     map InstructorID
       (filter (\<lambda>i. cid \<in> set (map strip (split_on CHR '','' (QualifiedCourses i))))
          (instructors ld))"

definition get_instructor_unavailable_day :: "data_loader \<Rightarrow> string \<Rightarrow> string option" where
  "get_instructor_unavailable_day ld iid =
     (case find (\<lambda>i. InstructorID i = iid) (instructors ld) of
        None \<Rightarrow> None
      | Some i \<Rightarrow>
          if str_contains (PreferredSlots i) ''Not on''
          then Some (strip (str_remove ''Not on '' (PreferredSlots i)))
          else None)"

definition get_available_timeslots_for_day :: "data_loader \<Rightarrow> string \<Rightarrow> string list" where
  "get_available_timeslots_for_day ld day =
     map TimeSlotID (filter (\<lambda>t. Day t = day) (timeslots ld))"

definition get_rooms_by_type :: "data_loader \<Rightarrow> string \<Rightarrow> string list" where
  "get_rooms_by_type ld room_type =
     map RoomID (filter (\<lambda>r. Room_Type r = room_type) (rooms ld))"

definition get_section_courses :: "data_loader \<Rightarrow> string \<Rightarrow> string list" where
  "get_section_courses ld sid =
     (case find (\<lambda>s. SectionID s = sid) (sections ld) of
        None \<Rightarrow> []
      | Some s \<Rightarrow> map strip (split_on CHR '','' (Courses s)))"

text \<open>
  The lookup \<^verbatim>\<open>timeslots[timeslots['TimeSlotID'] == t]\<close> followed by
  \<^verbatim>\<open>iloc[0]['Day']\<close>, which the builder and the scorer both inline: the weekday of
  the first row with that identifier, nothing when there is no such row.
\<close>

definition timeslot_day :: "data_loader \<Rightarrow> string \<Rightarrow> string option" where
  "timeslot_day ld ts = map_option Day (find (\<lambda>t. TimeSlotID t = ts) (timeslots ld))"

section \<open>Domain generator (problem\_builder.py)\<close>

definition calculate_lectures_per_week :: "int \<Rightarrow> int" where
  "calculate_lectures_per_week credits =
     (if credits = 1 then 1
      else if credits = 2 then 1
      else if credits = 3 then 2
      else if credits = 4 then 2
      else if credits = 5 then 3
      else 2)"

definition build_lectures_for_sections :: "data_loader \<Rightarrow> string list \<Rightarrow> lecture list" where
  "build_lectures_for_sections ld section_ids =
     concat (map (\<lambda>sid.
       concat (map (\<lambda>cid.
         case get_course_info ld cid of
           None \<Rightarrow> []
         | Some course_info \<Rightarrow>
             map (\<lambda>lec_num. Lecture cid sid lec_num)
               [1 .. calculate_lectures_per_week (Credits course_info)])
         (get_section_courses ld sid)))
       section_ids)"

text \<open>
  The test \<^verbatim>\<open>if unavailable_day and unavailable_day == day\<close>: an unavailable day that
  is \<open>None\<close> or the empty string excludes nothing.
\<close>

definition unavailable_on :: "data_loader \<Rightarrow> string \<Rightarrow> string \<Rightarrow> bool" where
  "unavailable_on ld iid day =
     (case get_instructor_unavailable_day ld iid of
        None \<Rightarrow> False
      | Some unavailable_day \<Rightarrow> unavailable_day \<noteq> [] \<and> unavailable_day = day)"

text \<open>
  The body of the loop of \<open>build_domains\<close> for one lecture: \<open>None\<close> when the loop
  \<open>continue\<close>s before storing (unknown course, or no qualified instructor), else the
  domain it stores.
\<close>

definition lecture_domain :: "data_loader \<Rightarrow> lecture \<Rightarrow> csp_value list option" where
  "lecture_domain ld l =
     (case get_course_info ld (course_id l) of
        None \<Rightarrow> None
      | Some course_info \<Rightarrow>
          let room_type = (if str_contains (Course_Type course_info) ''Lab''
                           then ''Lab'' else ''Lecture'');
              qualified_instructors = get_qualified_instructors ld (course_id l)
          in if qualified_instructors = [] then None
             else
               let available_rooms = get_rooms_by_type ld room_type;
                   all_timeslots = map TimeSlotID (timeslots ld)
               in Some (concat (map (\<lambda>ts.
                    case timeslot_day ld ts of
                      None \<Rightarrow> []
                    | Some day \<Rightarrow>
                        [(ts, room, inst).
                           room \<leftarrow> available_rooms,
                           inst \<leftarrow> qualified_instructors,
                           \<not> unavailable_on ld inst day])
                    all_timeslots)))"

text \<open>
  \<open>build_domains\<close> stores into \<open>self.domains\<close>, which the constructor of the builder
  sets to the empty dictionary.
\<close>

definition build_domains_from :: "data_loader \<Rightarrow> (string, csp_value list) pydict \<Rightarrow> lecture list \<Rightarrow> (string, csp_value list) pydict" where
  "build_domains_from ld domains lectures =
     foldl (\<lambda>domains l.
              case lecture_domain ld l of
                None \<Rightarrow> domains
              | Some domain \<Rightarrow> dict_set domains (get_variable_name l) domain)
       domains lectures"

definition build_domains :: "data_loader \<Rightarrow> lecture list \<Rightarrow> (string, csp_value list) pydict" where
  "build_domains ld lectures = build_domains_from ld [] lectures"

section \<open>Quality scorer (soft\_constraints.py)\<close>

text \<open>
  Penalties and bonuses are Python floats; they are real numbers here.  The weights
  are the integers the constructor stores.
\<close>

record weights =
  no_gaps :: int
  balanced_days :: int
  avoid_early :: int
  avoid_late :: int
  consecutive_rooms :: int

definition default_weights :: weights where
  "default_weights = \<lparr>no_gaps = 10, balanced_days = 5, avoid_early = 3, avoid_late = 3,
     consecutive_rooms = 8\<rparr>"

definition find_lecture :: "lecture list \<Rightarrow> string \<Rightarrow> lecture option" where
  "find_lecture lectures var_name = find (\<lambda>l. get_variable_name l = var_name) lectures"

definition group_by_section_and_day :: "data_loader \<Rightarrow> assignment \<Rightarrow> lecture list \<Rightarrow> (string \<times> string, string list) pydict" where
  "group_by_section_and_day ld a lectures =
     foldl (\<lambda>grouped (var_name, (timeslot, room, instructor)).
              case find_lecture lectures var_name of
                None \<Rightarrow> grouped
              | Some l \<Rightarrow>
                  (case timeslot_day ld timeslot of
                     None \<Rightarrow> grouped
                   | Some day \<Rightarrow> group_append grouped (section_id l, day) timeslot)) [] a"

definition group_by_instructor_and_day :: "data_loader \<Rightarrow> assignment \<Rightarrow> (string \<times> string, string list) pydict" where
  "group_by_instructor_and_day ld a =
     foldl (\<lambda>grouped (var_name, (timeslot, room, instructor)).
              case timeslot_day ld timeslot of
                None \<Rightarrow> grouped
              | Some day \<Rightarrow> group_append grouped (instructor, day) timeslot) [] a"

text \<open>\<open>xs.index(x)\<close>: the first position of \<open>x\<close>; \<open>None\<close> stands for \<open>ValueError\<close>.\<close>

fun list_index :: "'a list \<Rightarrow> 'a \<Rightarrow> nat option" where
  "list_index [] x = None"
| "list_index (y # ys) x = (if y = x then Some 0 else map_option Suc (list_index ys x))"

text \<open>Adding up the contributions of a loop whose body may raise.\<close>

fun sum_results :: "(py_error + real) list \<Rightarrow> py_error + real" where
  "sum_results [] = Inr 0"
| "sum_results (Inl err # rs) = Inl err"
| "sum_results (Inr x # rs) = (case sum_results rs of Inl err \<Rightarrow> Inl err | Inr y \<Rightarrow> Inr (x + y))"

text \<open>
  The inner loop of \<open>_calculate_gap_penalty\<close> over
  \<open>range(len(sorted_slots) - 1)\<close>; \<open>sorted\<close> orders the identifiers as strings.
\<close>

fun gap_loop :: "int \<Rightarrow> string list \<Rightarrow> string list \<Rightarrow> py_error + real" where
  "gap_loop w day_slots (x # y # rest) =
     (case list_index day_slots x of
        None \<Rightarrow> Inl ValueError
      | Some current_idx \<Rightarrow>
          (case list_index day_slots y of
             None \<Rightarrow> Inl ValueError
           | Some next_idx \<Rightarrow>
               (let gap_size = int next_idx - int current_idx - 1 in
                sum_results
                  [Inr (if gap_size > 0 then real_of_int (gap_size * w) else 0),
                   gap_loop w day_slots (y # rest)])))"
| "gap_loop w day_slots sorted_slots = Inr 0"

definition calculate_gap_penalty :: "data_loader \<Rightarrow> weights \<Rightarrow> assignment \<Rightarrow> lecture list \<Rightarrow> py_error + real" where
  "calculate_gap_penalty ld w a lectures =
     sum_results (map (\<lambda>((sec, day), slots).
         let sorted_slots = sort slots in
         if length sorted_slots > 1
         then gap_loop (no_gaps w) (get_available_timeslots_for_day ld day) sorted_slots
         else Inr 0)
       (group_by_section_and_day ld a lectures))"

definition section_day_counts :: "data_loader \<Rightarrow> assignment \<Rightarrow> lecture list \<Rightarrow> (string, (string, nat) pydict) pydict" where
  "section_day_counts ld a lectures =
     foldl (\<lambda>section_schedules (var_name, (timeslot, room, instructor)).
              case find_lecture lectures var_name of
                None \<Rightarrow> section_schedules
              | Some l \<Rightarrow>
                  let schedules1 = (if dict_contains section_schedules (section_id l)
                                    then section_schedules
                                    else dict_set section_schedules (section_id l) [])
                  in (case timeslot_day ld timeslot of
                        None \<Rightarrow> schedules1
                      | Some day \<Rightarrow>
                          let counts = dict_get_default schedules1 (section_id l) [];
                              counts1 = (if dict_contains counts day then counts
                                         else dict_set counts day 0)
                          in dict_set schedules1 (section_id l)
                               (dict_set counts1 day (dict_get_default counts1 day 0 + 1)))) [] a"

text \<open>Lines 117 to 120: mean, variance and \<open>variance ** 0.5\<close> of a non-empty list.\<close>

definition population_std :: "real list \<Rightarrow> real" where
  "population_std values =
     (let mean = sum_list values / real (length values);
          variance = sum_list (map (\<lambda>x. (x - mean)\<^sup>2) values) / real (length values)
      in sqrt variance)"

definition calculate_balance_bonus :: "data_loader \<Rightarrow> weights \<Rightarrow> assignment \<Rightarrow> lecture list \<Rightarrow> real" where
  "calculate_balance_bonus ld w a lectures =
     sum_list (map (\<lambda>(sec, day_counts).
         if day_counts = [] then 0
         else max 0 (5 - population_std (map (\<lambda>(day, n). real n) day_counts))
                * real_of_int (balanced_days w))
       (section_day_counts ld a lectures))"

text \<open>
  \<open>int(s)\<close> on a decimal string: surrounding whitespace, an optional sign, digits with
  single underscores between them; \<open>None\<close> stands for the \<open>ValueError\<close> that the bare
  \<open>except\<close> of \<open>_calculate_room_distance\<close> catches.
\<close>

definition is_digit :: "char \<Rightarrow> bool" where
  "is_digit c = (48 \<le> (of_char c :: nat) \<and> (of_char c :: nat) \<le> 57)"

fun digits_ok :: "bool \<Rightarrow> string \<Rightarrow> bool" where
  "digits_ok prev [] = prev"
| "digits_ok prev (c # cs) =
     (if is_digit c then digits_ok True cs
      else if c = CHR ''_'' \<and> prev then digits_ok False cs
      else False)"

definition digits_value :: "string \<Rightarrow> int" where
  "digits_value ds = foldl (\<lambda>acc c. acc * 10 + int (of_char c - 48)) 0 ds"

definition py_int :: "string \<Rightarrow> int option" where
  "py_int s =
     (let t = strip s;
          (neg, ds) = (case t of
                         [] \<Rightarrow> (False, [])
                       | c # r \<Rightarrow> if c = CHR ''-'' then (True, r)
                                  else if c = CHR ''+'' then (False, r)
                                  else (False, t))
      in if digits_ok False ds
         then Some ((if neg then - 1 else 1) * digits_value (filter (\<lambda>c. c \<noteq> CHR ''_'') ds))
         else None)"

definition calculate_room_distance :: "string \<Rightarrow> string \<Rightarrow> py_error + int" where
  "calculate_room_distance room1 room2 =
     (if room1 = room2 then Inr 0
      else (case room1 of
              [] \<Rightarrow> Inl IndexError
            | r1_type # r1_rest \<Rightarrow>
                (case room2 of
                   [] \<Rightarrow> Inl IndexError
                 | r2_type # r2_rest \<Rightarrow>
                     if r1_type = r2_type
                     then (case py_int r1_rest of
                             None \<Rightarrow> Inr 1
                           | Some r1_num \<Rightarrow>
                               (case py_int r2_rest of
                                  None \<Rightarrow> Inr 1
                                | Some r2_num \<Rightarrow> Inr (\<bar>r1_num - r2_num\<bar> div 5)))
                     else Inr 3)))"

definition all_slots :: "string list" where
  "all_slots = map (\<lambda>i. ''TS'' @ str_nat i) [0 ..< 20]"

text \<open>
  The scan \<^verbatim>\<open>for var_name, (ts, room, inst) in assignment.items()\<close> that looks up the
  two rooms: it runs over the whole assignment, and a later entry with the same
  timeslot overwrites an earlier one.
\<close>

definition rooms_at :: "assignment \<Rightarrow> string \<Rightarrow> string \<Rightarrow> string option \<times> string option" where
  "rooms_at a slot_i slot_j =
     foldl (\<lambda>(current_room, next_room) (var_name, (ts, room, inst)).
              (if ts = slot_i then Some room else current_room,
               if ts = slot_j then Some room else next_room)) (None, None) a"

fun room_loop :: "int \<Rightarrow> assignment \<Rightarrow> string list \<Rightarrow> py_error + real" where
  "room_loop w a (x # y # rest) =
     (case list_index all_slots x of
        None \<Rightarrow> Inl ValueError
      | Some current_idx \<Rightarrow>
          (case list_index all_slots y of
             None \<Rightarrow> Inl ValueError
           | Some next_idx \<Rightarrow>
               sum_results
                 [if next_idx = current_idx + 1
                  then (case rooms_at a x y of
                          (Some current_room, Some next_room) \<Rightarrow>
                            if current_room \<noteq> [] \<and> next_room \<noteq> []
                            then (case calculate_room_distance current_room next_room of
                                    Inl err \<Rightarrow> Inl err
                                  | Inr distance \<Rightarrow>
                                      Inr (if distance > 2 then real_of_int (distance * w) else 0))
                            else Inr 0
                        | _ \<Rightarrow> Inr 0)
                  else Inr 0,
                  room_loop w a (y # rest)]))"
| "room_loop w a sorted_slots = Inr 0"

definition check_consecutive_room_distance :: "weights \<Rightarrow> string list \<Rightarrow> assignment \<Rightarrow> py_error + real" where
  "check_consecutive_room_distance w slots a =
     (if length slots < 2 then Inr 0
      else room_loop (consecutive_rooms w) a (sort slots))"

definition calculate_room_distance_penalty :: "data_loader \<Rightarrow> weights \<Rightarrow> assignment \<Rightarrow> lecture list \<Rightarrow> py_error + real" where
  "calculate_room_distance_penalty ld w a lectures =
     sum_results
       (map (\<lambda>((sec, day), schedule). check_consecutive_room_distance w schedule a)
          (group_by_section_and_day ld a lectures)
        @ map (\<lambda>((instructor, day), schedule). check_consecutive_room_distance w schedule a)
          (group_by_instructor_and_day ld a))"


section \<open>Auxiliary notions\<close>

text \<open>
  The state of a call of \<open>_backtrack\<close> after the counter is incremented and the
  progress line, if due, is printed.
\<close>

definition step_state :: "lecture list \<Rightarrow> solver_state \<Rightarrow> solver_state" where
  "step_state lectures st =
     (if Suc (iterations st) mod 100 = 0
      then st\<lparr>iterations := Suc (iterations st),
              printed := printed st @ [Progress (length (assignment st)) (length lectures) (Suc (iterations st))]\<rparr>
      else st\<lparr>iterations := Suc (iterations st)\<rparr>)"

text \<open>
  The state in which a call of \<open>_backtrack\<close> returns from its timeout branch.
\<close>

definition timed_out_state :: "solver_state \<Rightarrow> solver_state" where
  "timed_out_state st = st\<lparr>iterations := Suc (iterations st), printed := printed st @ [TimeoutReached]\<rparr>"

text \<open>
  The timeout test of the call that sets \<open>iterations\<close> to \<open>i\<close>.
\<close>

definition expired :: "env \<Rightarrow> int \<Rightarrow> nat \<Rightarrow> bool" where
  "expired e timeout i = (clock e i - clock e 0 > real_of_int timeout)"

text \<open>
  What a search call leaves behind: it does not raise, a failure restores the assignment
  \<open>a\<close> it started from, and a solution is the assignment of the final state.
\<close>

definition keeps :: "assignment \<Rightarrow> search_result \<Rightarrow> bool" where
  "keeps a res = (case res of
      None \<Rightarrow> True
    | Some (Inl err, st') \<Rightarrow> False
    | Some (Inr None, st') \<Rightarrow> assignment st' = a
    | Some (Inr (Some sol), st') \<Rightarrow> sol = assignment st')"

text \<open>
  The number of members of the group of a key, 0 when the key has no group.
\<close>

definition glen :: "('k, 'v list) pydict \<Rightarrow> 'k \<Rightarrow> nat" where
  "glen g k = (case map_of g k of None \<Rightarrow> 0 | Some vs \<Rightarrow> length vs)"

text \<open>
  The grouping loops, with the key and member of an entry given by a function that is
  \<open>None\<close> for an entry the loop skips.
\<close>

definition group_fold :: "('x \<Rightarrow> ('k \<times> 'v) option) \<Rightarrow> ('k, 'v list) pydict \<Rightarrow> 'x list \<Rightarrow> ('k, 'v list) pydict" where
  "group_fold key g xs =
     foldl (\<lambda>g x. case key x of None \<Rightarrow> g | Some (k, v) \<Rightarrow> group_append g k v) g xs"

definition student_key :: "lecture list \<Rightarrow> string \<times> csp_value \<Rightarrow> ((string \<times> string) \<times> string) option" where
  "student_key lectures x =
     (case dict_get (var_to_section lectures) (fst x) of
        None \<Rightarrow> None
      | Some sec \<Rightarrow> Some ((sec, fst (snd x)), fst x))"

definition conflict_key :: "lecture list \<Rightarrow> string \<times> csp_value \<Rightarrow> ((string \<times> string) \<times> string) option" where
  "conflict_key lectures x =
     (case dict_get (var_to_section lectures) (fst x) of
        None \<Rightarrow> None
      | Some sec \<Rightarrow> if sec \<noteq> [] then Some ((sec, fst (snd x)), fst x) else None)"

text \<open>
  A returned solution passes \<open>check_all_constraints\<close> and assigns as many variables
  as there are lectures.
\<close>

definition sound_result :: "lecture list \<Rightarrow> search_result \<Rightarrow> bool" where
  "sound_result lectures res = (case res of
      Some (Inr (Some sol), st') \<Rightarrow>
        check_all_constraints sol lectures \<and> length sol = length lectures
    | _ \<Rightarrow> True)"

text \<open>
  The lines a search call prints extend the output, and ``Timeout reached!'' is among
  them exactly when one of the timeout tests made during the call fired.
\<close>

definition trace_ok :: "env \<Rightarrow> int \<Rightarrow> solver_state \<Rightarrow> search_result \<Rightarrow> bool" where
  "trace_ok e timeout st res = (case res of
      None \<Rightarrow> True
    | Some (r, st') \<Rightarrow>
        iterations st \<le> iterations st' \<and>
        (\<exists>msgs. printed st' = printed st @ msgs \<and>
           (TimeoutReached \<in> set msgs \<longleftrightarrow>
              (\<exists>i. iterations st < i \<and> i \<le> iterations st' \<and> expired e timeout i))))"

section \<open>The scorer as the specification words it\<close>

text \<open>
  Two quantities that the specification of the scorer speaks of and the program does not
  compute.  The idle positions of a section on a weekday are the positions of the
  ordered timeslot sequence of that weekday strictly between its earliest and its latest
  session that hold no session of the section.
\<close>

definition spec_idle_slots :: "data_loader \<Rightarrow> assignment \<Rightarrow> lecture list \<Rightarrow> nat" where
  "spec_idle_slots ld a lectures =
     sum_list (map (\<lambda>((sec, day), slots).
         let ps = List.map_filter (list_index (get_available_timeslots_for_day ld day)) slots
         in if length slots \<ge> 2 \<and> ps \<noteq> []
            then length (filter (\<lambda>p. p \<notin> set ps) [Min (set ps) ..< Max (set ps)])
            else 0)
       (group_by_section_and_day ld a lectures))"

text \<open>
  The balance bonus over the per-weekday session counts of the whole week: every weekday
  of the timeslot table counts, with 0 for a weekday on which the section has no session.
\<close>

definition spec_balance_bonus :: "data_loader \<Rightarrow> weights \<Rightarrow> assignment \<Rightarrow> lecture list \<Rightarrow> real" where
  "spec_balance_bonus ld w a lectures =
     sum_list (map (\<lambda>(sec, day_counts).
         max 0 (5 - population_std
                      (map (\<lambda>day. real (dict_get_default day_counts day 0))
                         (remdups (map Day (timeslots ld)))))
           * real_of_int (balanced_days w))
       (section_day_counts ld a lectures))"

section \<open>Example instances\<close>

text \<open>
  Two lectures of one section; a clock that stands still and one that has run past any
  timeout at the first reading; a shuffle that leaves the order as it is.  In
  \<open>clash_domains\<close> both lectures can only take timeslot \<open>TS0\<close>; \<open>lone_domains\<close> has no
  entry for the second lecture.  In \<open>small_loader\<close> nobody is qualified for
  \<open>CHM101\<close>.
\<close>

definition demo_lectures :: "lecture list" where
  "demo_lectures = [Lecture ''MTH101'' ''S1'' 1, Lecture ''PHY113'' ''S1'' 1]"

definition demo_domains :: "(string, csp_value list) pydict" where
  "demo_domains =
     [(''S1_MTH101_L1'', [(''TS0'', ''R101'', ''PROF01''), (''TS1'', ''R101'', ''PROF01'')]),
      (''S1_PHY113_L1'', [(''TS0'', ''R102'', ''PROF02'')])]"

definition clash_domains :: "(string, csp_value list) pydict" where
  "clash_domains =
     [(''S1_MTH101_L1'', [(''TS0'', ''R101'', ''PROF01'')]),
      (''S1_PHY113_L1'', [(''TS0'', ''R102'', ''PROF02'')])]"

definition still_env :: env where
  "still_env = \<lparr>clock = (\<lambda>i. 0), shuffle = (\<lambda>i xs. xs)\<rparr>"

definition late_env :: env where
  "late_env = \<lparr>clock = (\<lambda>i. if i = 0 then 0 else 1000), shuffle = (\<lambda>i xs. xs)\<rparr>"

definition lone_domains :: "(string, csp_value list) pydict" where
  "lone_domains = [(''S1_MTH101_L1'', [(''TS0'', ''R101'', ''PROF01'')])]"

definition phy_lecture :: lecture where
  "phy_lecture = Lecture ''PHY113'' ''S1'' 1"

definition small_loader :: data_loader where
  "small_loader = \<lparr>
     courses = [\<lparr>CourseID = ''MTH101'', Credits = 3, Course_Type = ''Lecture''\<rparr>,
                \<lparr>CourseID = ''PHY113'', Credits = 2, Course_Type = ''Lecture and Lab''\<rparr>,
                \<lparr>CourseID = ''CHM101'', Credits = 1, Course_Type = ''Lecture''\<rparr>],
     instructors = [\<lparr>InstructorID = ''PROF01'', PreferredSlots = ''Not on Sunday'',
                      QualifiedCourses = ''MTH101, PHY113''\<rparr>,
                    \<lparr>InstructorID = ''PROF02'', PreferredSlots = ''Any time'',
                      QualifiedCourses = ''PHY113''\<rparr>],
     rooms = [\<lparr>RoomID = ''R101'', Room_Type = ''Lecture''\<rparr>,
              \<lparr>RoomID = ''L1'', Room_Type = ''Lab''\<rparr>],
     timeslots = [\<lparr>TimeSlotID = ''TS0'', Day = ''Sunday''\<rparr>,
                  \<lparr>TimeSlotID = ''TS4'', Day = ''Monday''\<rparr>],
     sections = [\<lparr>SectionID = ''S1'', Courses = ''MTH101, PHY113, CHM101''\<rparr>]\<rparr>"

definition small_lectures :: "lecture list" where
  "small_lectures = build_lectures_for_sections small_loader [''S1'']"

definition chm_lecture :: lecture where
  "chm_lecture = Lecture ''CHM101'' ''S1'' 1"

definition phy_domain :: "csp_value list" where
  "phy_domain = [(''TS0'', ''L1'', ''PROF02''), (''TS4'', ''L1'', ''PROF01''),
                 (''TS4'', ''L1'', ''PROF02'')]"

text \<open>
  The timeslot table the scorer is written for: \<open>TS0\<close> to \<open>TS19\<close>, four a day, Sunday to
  Thursday.  \<open>gappy_a\<close> and \<open>gappy_b\<close> differ in the timeslot of one lecture; in
  \<open>room_a\<close> a lecture of another section shares timeslot \<open>TS1\<close>; \<open>balance_a\<close> puts both
  lectures of the section on Sunday, \<open>balance_b\<close> one on Sunday and one on Monday.
\<close>

definition week_timeslots :: "timeslot_row list" where
  "week_timeslots =
     [\<lparr>TimeSlotID = ''TS0'', Day = ''Sunday''\<rparr>, \<lparr>TimeSlotID = ''TS1'', Day = ''Sunday''\<rparr>,
      \<lparr>TimeSlotID = ''TS2'', Day = ''Sunday''\<rparr>, \<lparr>TimeSlotID = ''TS3'', Day = ''Sunday''\<rparr>,
      \<lparr>TimeSlotID = ''TS4'', Day = ''Monday''\<rparr>, \<lparr>TimeSlotID = ''TS5'', Day = ''Monday''\<rparr>,
      \<lparr>TimeSlotID = ''TS6'', Day = ''Monday''\<rparr>, \<lparr>TimeSlotID = ''TS7'', Day = ''Monday''\<rparr>,
      \<lparr>TimeSlotID = ''TS8'', Day = ''Tuesday''\<rparr>, \<lparr>TimeSlotID = ''TS9'', Day = ''Tuesday''\<rparr>,
      \<lparr>TimeSlotID = ''TS10'', Day = ''Tuesday''\<rparr>, \<lparr>TimeSlotID = ''TS11'', Day = ''Tuesday''\<rparr>,
      \<lparr>TimeSlotID = ''TS12'', Day = ''Wednesday''\<rparr>, \<lparr>TimeSlotID = ''TS13'', Day = ''Wednesday''\<rparr>,
      \<lparr>TimeSlotID = ''TS14'', Day = ''Wednesday''\<rparr>, \<lparr>TimeSlotID = ''TS15'', Day = ''Wednesday''\<rparr>,
      \<lparr>TimeSlotID = ''TS16'', Day = ''Thursday''\<rparr>, \<lparr>TimeSlotID = ''TS17'', Day = ''Thursday''\<rparr>,
      \<lparr>TimeSlotID = ''TS18'', Day = ''Thursday''\<rparr>, \<lparr>TimeSlotID = ''TS19'', Day = ''Thursday''\<rparr>]"

definition week_loader :: data_loader where
  "week_loader = small_loader\<lparr>timeslots := week_timeslots\<rparr>"

definition s1_lectures :: "lecture list" where
  "s1_lectures = [Lecture ''MTH101'' ''S1'' 1, Lecture ''PHY113'' ''S1'' 1,
                  Lecture ''CHM101'' ''S1'' 1]"

definition gappy_a :: assignment where
  "gappy_a = [(''S1_MTH101_L1'', ''TS0'', ''R101'', ''PROF01''),
              (''S1_PHY113_L1'', ''TS8'', ''R101'', ''PROF01''),
              (''S1_CHM101_L1'', ''TS11'', ''R101'', ''PROF01'')]"

definition gappy_b :: assignment where
  "gappy_b = [(''S1_MTH101_L1'', ''TS0'', ''R101'', ''PROF01''),
              (''S1_PHY113_L1'', ''TS8'', ''R101'', ''PROF01''),
              (''S1_CHM101_L1'', ''TS2'', ''R101'', ''PROF01'')]"

definition room_lectures :: "lecture list" where
  "room_lectures = [Lecture ''MTH101'' ''S1'' 1, Lecture ''PHY113'' ''S1'' 1,
                    Lecture ''CHM101'' ''S2'' 1]"

definition room_a :: assignment where
  "room_a = [(''S1_MTH101_L1'', ''TS0'', ''R101'', ''PROF01''),
             (''S1_PHY113_L1'', ''TS1'', ''R101'', ''PROF02''),
             (''S2_CHM101_L1'', ''TS1'', ''L1'', ''PROF03'')]"

definition balance_a :: assignment where
  "balance_a = [(''S1_MTH101_L1'', ''TS0'', ''R101'', ''PROF01''),
                (''S1_PHY113_L1'', ''TS1'', ''R101'', ''PROF01'')]"

definition balance_b :: assignment where
  "balance_b = [(''S1_MTH101_L1'', ''TS0'', ''R101'', ''PROF01''),
                (''S1_PHY113_L1'', ''TS4'', ''R101'', ''PROF01'')]"

section \<open>Properties of the search engine\<close>

declare backtrack.simps [simp del]

lemma step_state_simps [simp]:
  "assignment (step_state lectures st) = assignment st"
  "iterations (step_state lectures st) = Suc (iterations st)"
  by (simp_all add: step_state_def)

lemma backtrack_unfold:
  "backtrack fuel lectures domains e timeout st =
    (if expired e timeout (Suc (iterations st)) then Some (Inr None, timed_out_state st)
     else if length (assignment st) = length lectures
       then Some (Inr (Some (assignment st)), step_state lectures st)
     else (case select_unassigned_variable lectures domains (assignment st) of
             None \<Rightarrow> Some (Inr None, step_state lectures st)
           | Some var_name \<Rightarrow>
               try_values fuel lectures domains e timeout var_name
                 (order_domain_values e (Suc (iterations st)) (dict_get_default domains var_name []))
                 (step_state lectures st)))"
  by (subst backtrack.simps)
     (simp add: Let_def step_state_def timed_out_state_def expired_def split: option.split)

lemma search_induct:
  fixes P :: "nat \<Rightarrow> solver_state \<Rightarrow> bool"
    and Q :: "nat \<Rightarrow> string \<Rightarrow> csp_value list \<Rightarrow> solver_state \<Rightarrow> bool"
  assumes bt: "\<And>fuel st. (\<And>var_name vs st'. Q fuel var_name vs st') \<Longrightarrow> P fuel st"
    and nil: "\<And>fuel var_name st. Q fuel var_name [] st"
    and cons: "\<And>fuel var_name v vs st.
        (\<And>fuel' st'. fuel = Suc fuel' \<Longrightarrow> P fuel' st') \<Longrightarrow> (\<And>st'. Q fuel var_name vs st')
        \<Longrightarrow> Q fuel var_name (v # vs) st"
  shows "P fuel st \<and> Q fuel var_name vs st"
proof -
  have both: "(\<forall>st. P fuel st) \<and> (\<forall>var_name vs st. Q fuel var_name vs st)"
  proof (induction fuel rule: less_induct)
    case (less fuel)
    have q: "Q fuel var_name vs st" for var_name vs st
    proof (induction vs arbitrary: st)
      case Nil
      show ?case by (rule nil)
    next
      case (Cons v vs)
      show ?case
      proof (rule cons)
        fix fuel' st'
        assume "fuel = Suc fuel'"
        then have "fuel' < fuel" by simp
        with less show "P fuel' st'" by blast
      next
        fix st'
        show "Q fuel var_name vs st'" by (rule Cons)
      qed
    qed
    then show ?case using bt by blast
  qed
  from both show ?thesis by blast
qed

lemma keys_dict_set_list:
  "map fst (dict_set d k v) = (if k \<in> fst ` set d then map fst d else map fst d @ [k])"
proof (induction d)
  case Nil
  show ?case by simp
next
  case (Cons kv d)
  obtain k' v' where kv: "kv = (k', v')" by (cases kv)
  show ?case
  proof (cases "k' = k")
    case True
    with kv show ?thesis by simp
  next
    case False
    with kv Cons show ?thesis by (cases "k \<in> fst ` set d") simp_all
  qed
qed

lemma keys_dict_set: "set (map fst (dict_set d k v)) = insert k (set (map fst d))"
  by (auto simp: keys_dict_set_list)

lemma dict_contains_set: "dict_contains (dict_set d k v) k' = (k' = k \<or> dict_contains d k')"
  unfolding dict_contains_def keys_dict_set by auto

lemma dict_set_absent: "\<not> dict_contains d k \<Longrightarrow> dict_set d k v = d @ [(k, v)]"
  by (induction d) (auto simp: dict_contains_def)

lemma dict_del_absent: "\<not> dict_contains d k \<Longrightarrow> dict_del d k = d"
  by (induction d) (auto simp: dict_contains_def dict_del_def)

lemma dict_del_set: "\<not> dict_contains d k \<Longrightarrow> dict_del (dict_set d k v) k = d"
  using dict_del_absent [of d k] by (simp add: dict_set_absent dict_del_def)

lemma mrv_loop_best:
  "snd (mrv_loop rem us (m, b)) = Some x \<Longrightarrow> x \<in> set us \<or> b = Some x"
  by (induction us arbitrary: m b) (auto split: if_splits)

lemma select_unassigned:
  assumes "select_unassigned_variable lectures domains a = Some x"
  shows "x \<in> set (unassigned_vars lectures a)"
  using assms
  by (auto simp: select_unassigned_variable_def Let_def split: if_splits dest: mrv_loop_best)

lemma unassigned_not_assigned: "x \<in> set (unassigned_vars lectures a) \<Longrightarrow> \<not> dict_contains a x"
  by (simp add: unassigned_vars_def)

lemma search_keeps:
  "keeps (assignment st) (backtrack fuel lectures domains e timeout st) \<and>
   (\<not> dict_contains (assignment st) var_name \<longrightarrow>
     keeps (assignment st) (try_values fuel lectures domains e timeout var_name vs st))"
proof (rule search_induct [where
      P = "\<lambda>fuel st. keeps (assignment st) (backtrack fuel lectures domains e timeout st)" and
      Q = "\<lambda>fuel var_name vs st. \<not> dict_contains (assignment st) var_name \<longrightarrow>
             keeps (assignment st) (try_values fuel lectures domains e timeout var_name vs st)"])
  fix fuel st
  assume q: "\<And>var_name vs st'. \<not> dict_contains (assignment st') var_name \<longrightarrow>
             keeps (assignment st') (try_values fuel lectures domains e timeout var_name vs st')"
  show "keeps (assignment st) (backtrack fuel lectures domains e timeout st)"
  proof (cases "select_unassigned_variable lectures domains (assignment st)")
    case None
    then show ?thesis
      by (simp add: backtrack_unfold keeps_def timed_out_state_def)
  next
    case (Some x)
    then have "\<not> dict_contains (assignment (step_state lectures st)) x"
      by (auto dest!: select_unassigned unassigned_not_assigned)
    from q [rule_format, OF this] Some show ?thesis
      by (simp add: backtrack_unfold) (simp add: keeps_def timed_out_state_def)
  qed
next
  fix fuel var_name st
  show "\<not> dict_contains (assignment st) var_name \<longrightarrow>
      keeps (assignment st) (try_values fuel lectures domains e timeout var_name [] st)"
    by (simp add: keeps_def)
next
  fix fuel var_name v vs st
  assume p: "\<And>fuel' st'. fuel = Suc fuel' \<Longrightarrow>
      keeps (assignment st') (backtrack fuel' lectures domains e timeout st')"
    and q: "\<And>st'. \<not> dict_contains (assignment st') var_name \<longrightarrow>
      keeps (assignment st') (try_values fuel lectures domains e timeout var_name vs st')"
  show "\<not> dict_contains (assignment st) var_name \<longrightarrow>
      keeps (assignment st) (try_values fuel lectures domains e timeout var_name (v # vs) st)"
  proof
    assume nc: "\<not> dict_contains (assignment st) var_name"
    let ?st = "st\<lparr>assignment := dict_set (assignment st) var_name v\<rparr>"
    show "keeps (assignment st) (try_values fuel lectures domains e timeout var_name (v # vs) st)"
    proof (cases "is_consistent var_name v (assignment st) lectures")
      case False
      with q [of st] nc show ?thesis by simp
    next
      case c: True
      show ?thesis
      proof (cases fuel)
        case 0
        with c show ?thesis by (simp add: keeps_def)
      next
        case (Suc fuel')
        from p [OF Suc, of ?st]
        have b: "keeps (dict_set (assignment st) var_name v)
                   (backtrack fuel' lectures domains e timeout ?st)" by simp
        show ?thesis
        proof (cases "backtrack fuel' lectures domains e timeout ?st")
          case None
          with c Suc show ?thesis by (simp add: keeps_def)
        next
          case (Some p)
          obtain r st' where p: "p = (r, st')" by (cases p)
          show ?thesis
          proof (cases r)
            case (Inl err)
            with b Some p show ?thesis by (simp add: keeps_def)
          next
            case (Inr x)
            show ?thesis
            proof (cases x)
              case None
              with b Some p Inr have k: "assignment st' = dict_set (assignment st) var_name v"
                by (simp add: keeps_def)
              then have dc: "dict_contains (assignment st') var_name"
                by (simp add: dict_contains_set)
              let ?st2 = "st'\<lparr>assignment := dict_del (assignment st') var_name\<rparr>"
              have a2: "assignment ?st2 = assignment st"
                using k nc by (simp add: dict_del_set)
              with q [of ?st2] nc
              have "keeps (assignment st)
                      (try_values fuel lectures domains e timeout var_name vs ?st2)"
                by simp
              with c Suc Some p Inr None dc show ?thesis by simp
            next
              case (Some sol)
              with b \<open>backtrack fuel' lectures domains e timeout ?st = Some p\<close> p Inr c Suc
              show ?thesis by (simp add: keeps_def)
            qed
          qed
        qed
      qed
    qed
  qed
qed

lemma glen_group_append:
  "glen (group_append g k v) k' = glen g k' + (if k' = k then 1 else 0)"
  by (induction g) (auto simp: glen_def)

lemma keys_group_append:
  "map fst (group_append g k v) = (if k \<in> fst ` set g then map fst g else map fst g @ [k])"
proof (induction g)
  case Nil
  show ?case by simp
next
  case (Cons kv g)
  obtain k' vs where kv: "kv = (k', vs)" by (cases kv)
  show ?case
  proof (cases "k' = k")
    case True
    with kv show ?thesis by simp
  next
    case False
    with kv Cons show ?thesis by (cases "k \<in> fst ` set g") simp_all
  qed
qed

lemma distinct_group_append:
  "distinct (map fst g) \<Longrightarrow> distinct (map fst (group_append g k v))"
  by (simp add: keys_group_append)

lemma group_fold_Cons:
  "group_fold key g (x # xs) =
     group_fold key (case key x of None \<Rightarrow> g | Some (k, v) \<Rightarrow> group_append g k v) xs"
  by (simp add: group_fold_def)

lemma glen_group_fold:
  "glen (group_fold key g xs) k =
     glen g k + length (filter (\<lambda>x. \<exists>v. key x = Some (k, v)) xs)"
proof (induction xs arbitrary: g)
  case Nil
  show ?case by (simp add: group_fold_def)
next
  case (Cons x xs)
  show ?case
    by (cases "key x") (auto simp: group_fold_Cons Cons glen_group_append)
qed

lemma distinct_group_fold:
  "distinct (map fst g) \<Longrightarrow> distinct (map fst (group_fold key g xs))"
proof (induction xs arbitrary: g)
  case Nil
  then show ?case by (simp add: group_fold_def)
next
  case (Cons x xs)
  then show ?case
    by (cases "key x") (auto simp: group_fold_Cons distinct_group_append)
qed

lemma no_big_group_iff:
  assumes "distinct (map fst g)"
  shows "list_all (\<lambda>(k, ls). \<not> length ls > 1) g \<longleftrightarrow> (\<forall>k. glen g k \<le> 1)"
proof
  assume l: "list_all (\<lambda>(k, ls). \<not> length ls > 1) g"
  show "\<forall>k. glen g k \<le> 1"
  proof
    fix k
    show "glen g k \<le> 1"
    proof (cases "map_of g k")
      case None
      then show ?thesis by (simp add: glen_def)
    next
      case (Some vs)
      then have "(k, vs) \<in> set g" by (rule map_of_SomeD)
      with l have "\<not> length vs > 1" by (auto simp: list_all_iff)
      with Some show ?thesis by (simp add: glen_def)
    qed
  qed
next
  assume r: "\<forall>k. glen g k \<le> 1"
  show "list_all (\<lambda>(k, ls). \<not> length ls > 1) g"
    unfolding list_all_iff
  proof
    fix kv assume "kv \<in> set g"
    obtain k vs where kv: "kv = (k, vs)" by (cases kv)
    with \<open>kv \<in> set g\<close> assms have "map_of g k = Some vs" by simp
    with r [rule_format, of k] have "length vs \<le> 1" by (simp add: glen_def)
    with kv show "case kv of (k, ls) \<Rightarrow> \<not> length ls > 1" by simp
  qed
qed

lemma student_schedule_fold:
  "student_schedule a lectures = group_fold (student_key lectures) [] a"
proof -
  have "(\<lambda>g (var_name, (timeslot, room, instructor)).
              case dict_get (var_to_section lectures) var_name of
                None \<Rightarrow> g
              | Some sec \<Rightarrow> group_append g (sec, timeslot) var_name)
      = (\<lambda>g x. case student_key lectures x of None \<Rightarrow> g | Some (k, v) \<Rightarrow> group_append g k v)"
    by (auto simp: fun_eq_iff student_key_def split: option.splits)
  then show ?thesis by (simp add: student_schedule_def group_fold_def)
qed

lemma conflict_section_schedule_fold:
  "conflict_section_schedule a lectures = group_fold (conflict_key lectures) [] a"
proof -
  have "(\<lambda>g (var_name, (timeslot, room, instructor)).
              case dict_get (var_to_section lectures) var_name of
                None \<Rightarrow> g
              | Some sec \<Rightarrow> if sec \<noteq> [] then group_append g (sec, timeslot) var_name else g)
      = (\<lambda>g x. case conflict_key lectures x of None \<Rightarrow> g | Some (k, v) \<Rightarrow> group_append g k v)"
    by (auto simp: fun_eq_iff conflict_key_def split: option.splits)
  then show ?thesis by (simp add: conflict_section_schedule_def group_fold_def)
qed

lemma conflict_key_student_key:
  "conflict_key lectures x = Some kv \<Longrightarrow> student_key lectures x = Some kv"
  by (auto simp: conflict_key_def student_key_def split: option.splits if_splits)

lemma no_student_conflict_sections:
  assumes "no_student_conflict a lectures"
  shows "filter (\<lambda>(key, ls). length ls > 1) (conflict_section_schedule a lectures) = []"
proof -
  have d1: "distinct (map fst (group_fold (student_key lectures) [] a))"
    and d2: "distinct (map fst (group_fold (conflict_key lectures) [] a))"
    by (simp_all add: distinct_group_fold)
  from assms have s: "\<forall>k. glen (group_fold (student_key lectures) [] a) k \<le> 1"
    unfolding no_student_conflict_def student_schedule_fold
    using no_big_group_iff [OF d1] by blast
  have "glen (group_fold (conflict_key lectures) [] a) k \<le> 1" for k
  proof -
    have "length (filter (\<lambda>x. \<exists>v. conflict_key lectures x = Some (k, v)) a)
        \<le> length (filter (\<lambda>x. \<exists>v. student_key lectures x = Some (k, v)) a)"
    proof (induction a)
      case Nil show ?case by simp
    next
      case (Cons x a)
      then show ?case by (auto dest: conflict_key_student_key)
    qed
    with s [rule_format, of k] show ?thesis by (simp add: glen_group_fold)
  qed
  then have "list_all (\<lambda>(k, ls). \<not> length ls > 1) (group_fold (conflict_key lectures) [] a)"
    using no_big_group_iff [OF d2] by blast
  then show ?thesis
    by (auto simp: conflict_section_schedule_fold filter_empty_conv list_all_iff)
qed

lemma check_all_no_conflicts:
  assumes "check_all_constraints a lectures"
  shows "get_conflicts a lectures = []"
proof -
  from assms have i: "no_instructor_conflict a" and r: "no_room_conflict a"
    and s: "no_student_conflict a lectures"
    by (simp_all add: check_all_constraints_def)
  from i have "filter (\<lambda>(key, ls). length ls > 1) (instructor_schedule a) = []"
    by (auto simp: no_instructor_conflict_def filter_empty_conv list_all_iff)
  moreover from r have "filter (\<lambda>(key, ls). length ls > 1) (room_schedule a) = []"
    by (auto simp: no_room_conflict_def filter_empty_conv list_all_iff)
  moreover note no_student_conflict_sections [OF s]
  ultimately show ?thesis by (simp add: get_conflicts_def)
qed

lemmas backtrack_keeps = search_keeps [THEN conjunct1]

lemma search_sound:
  "(check_all_constraints (assignment st) lectures \<longrightarrow>
      sound_result lectures (backtrack fuel lectures domains e timeout st)) \<and>
   (\<not> dict_contains (assignment st) var_name \<longrightarrow>
    check_all_constraints (assignment st) lectures \<longrightarrow>
      sound_result lectures (try_values fuel lectures domains e timeout var_name vs st))"
proof (rule search_induct [where
      P = "\<lambda>fuel st. check_all_constraints (assignment st) lectures \<longrightarrow>
             sound_result lectures (backtrack fuel lectures domains e timeout st)" and
      Q = "\<lambda>fuel var_name vs st. \<not> dict_contains (assignment st) var_name \<longrightarrow>
             check_all_constraints (assignment st) lectures \<longrightarrow>
             sound_result lectures (try_values fuel lectures domains e timeout var_name vs st)"])
  fix fuel st
  assume q: "\<And>var_name vs st'. \<not> dict_contains (assignment st') var_name \<longrightarrow>
             check_all_constraints (assignment st') lectures \<longrightarrow>
             sound_result lectures (try_values fuel lectures domains e timeout var_name vs st')"
  show "check_all_constraints (assignment st) lectures \<longrightarrow>
          sound_result lectures (backtrack fuel lectures domains e timeout st)"
  proof
    assume ok: "check_all_constraints (assignment st) lectures"
    show "sound_result lectures (backtrack fuel lectures domains e timeout st)"
    proof (cases "select_unassigned_variable lectures domains (assignment st)")
      case None
      with ok show ?thesis
        by (simp add: backtrack_unfold sound_result_def)
    next
      case (Some x)
      then have "\<not> dict_contains (assignment (step_state lectures st)) x"
        by (auto dest!: select_unassigned unassigned_not_assigned)
      from q [rule_format, OF this] ok Some show ?thesis
        by (simp add: backtrack_unfold) (simp add: sound_result_def)
    qed
  qed
next
  fix fuel var_name st
  show "\<not> dict_contains (assignment st) var_name \<longrightarrow>
      check_all_constraints (assignment st) lectures \<longrightarrow>
      sound_result lectures (try_values fuel lectures domains e timeout var_name [] st)"
    by (simp add: sound_result_def)
next
  fix fuel var_name v vs st
  assume p: "\<And>fuel' st'. fuel = Suc fuel' \<Longrightarrow>
      check_all_constraints (assignment st') lectures \<longrightarrow>
      sound_result lectures (backtrack fuel' lectures domains e timeout st')"
    and q: "\<And>st'. \<not> dict_contains (assignment st') var_name \<longrightarrow>
      check_all_constraints (assignment st') lectures \<longrightarrow>
      sound_result lectures (try_values fuel lectures domains e timeout var_name vs st')"
  show "\<not> dict_contains (assignment st) var_name \<longrightarrow>
      check_all_constraints (assignment st) lectures \<longrightarrow>
      sound_result lectures (try_values fuel lectures domains e timeout var_name (v # vs) st)"
  proof (intro impI)
    assume nc: "\<not> dict_contains (assignment st) var_name"
      and ok: "check_all_constraints (assignment st) lectures"
    let ?st = "st\<lparr>assignment := dict_set (assignment st) var_name v\<rparr>"
    show "sound_result lectures (try_values fuel lectures domains e timeout var_name (v # vs) st)"
    proof (cases "is_consistent var_name v (assignment st) lectures")
      case False
      with q [of st] nc ok show ?thesis by simp
    next
      case c: True
      show ?thesis
      proof (cases fuel)
        case 0
        with c show ?thesis by (simp add: sound_result_def)
      next
        case (Suc fuel')
        from c have "check_all_constraints (assignment ?st) lectures"
          by (simp add: is_consistent_def)
        with p [OF Suc, of ?st]
        have b: "sound_result lectures (backtrack fuel' lectures domains e timeout ?st)" by simp
        have k: "keeps (dict_set (assignment st) var_name v)
                   (backtrack fuel' lectures domains e timeout ?st)"
          using backtrack_keeps [of ?st fuel' lectures domains e timeout] by simp
        show ?thesis
        proof (cases "backtrack fuel' lectures domains e timeout ?st")
          case None
          with c Suc show ?thesis by (simp add: sound_result_def)
        next
          case (Some p)
          obtain r st' where p: "p = (r, st')" by (cases p)
          show ?thesis
          proof (cases r)
            case (Inl err)
            with k Some p show ?thesis by (simp add: keeps_def)
          next
            case (Inr x)
            show ?thesis
            proof (cases x)
              case None
              with k Some p Inr have ka: "assignment st' = dict_set (assignment st) var_name v"
                by (simp add: keeps_def)
              then have dc: "dict_contains (assignment st') var_name"
                by (simp add: dict_contains_set)
              let ?st2 = "st'\<lparr>assignment := dict_del (assignment st') var_name\<rparr>"
              have a2: "assignment ?st2 = assignment st"
                using ka nc by (simp add: dict_del_set)
              with q [of ?st2] nc ok
              have "sound_result lectures
                      (try_values fuel lectures domains e timeout var_name vs ?st2)"
                by simp
              with c Suc Some p Inr None dc show ?thesis by simp
            next
              case (Some sol)
              with b \<open>backtrack fuel' lectures domains e timeout ?st = Some p\<close> p Inr c Suc
              show ?thesis by (simp add: sound_result_def)
            qed
          qed
        qed
      qed
    qed
  qed
qed

lemma unassigned_after_set:
  "unassigned_vars lectures (dict_set a x v) = filter (\<lambda>y. y \<noteq> x) (unassigned_vars lectures a)"
  by (auto simp: unassigned_vars_def dict_contains_set intro: filter_cong)

lemma unassigned_shrinks:
  assumes "x \<in> set (unassigned_vars lectures a)"
  shows "length (unassigned_vars lectures (dict_set a x v)) < length (unassigned_vars lectures a)"
  unfolding unassigned_after_set using assms by (simp add: length_filter_less)

lemma search_returns:
  "(length (unassigned_vars lectures (assignment st)) \<le> fuel \<longrightarrow>
      backtrack fuel lectures domains e timeout st \<noteq> None) \<and>
   (var_name \<in> set (unassigned_vars lectures (assignment st)) \<longrightarrow>
    length (unassigned_vars lectures (assignment st)) \<le> fuel \<longrightarrow>
      try_values fuel lectures domains e timeout var_name vs st \<noteq> None)"
proof (rule search_induct [where
      P = "\<lambda>fuel st. length (unassigned_vars lectures (assignment st)) \<le> fuel \<longrightarrow>
             backtrack fuel lectures domains e timeout st \<noteq> None" and
      Q = "\<lambda>fuel var_name vs st. var_name \<in> set (unassigned_vars lectures (assignment st)) \<longrightarrow>
             length (unassigned_vars lectures (assignment st)) \<le> fuel \<longrightarrow>
             try_values fuel lectures domains e timeout var_name vs st \<noteq> None"])
  fix fuel st
  assume q: "\<And>var_name vs st'. var_name \<in> set (unassigned_vars lectures (assignment st')) \<longrightarrow>
             length (unassigned_vars lectures (assignment st')) \<le> fuel \<longrightarrow>
             try_values fuel lectures domains e timeout var_name vs st' \<noteq> None"
  show "length (unassigned_vars lectures (assignment st)) \<le> fuel \<longrightarrow>
          backtrack fuel lectures domains e timeout st \<noteq> None"
  proof
    assume le: "length (unassigned_vars lectures (assignment st)) \<le> fuel"
    show "backtrack fuel lectures domains e timeout st \<noteq> None"
    proof (cases "select_unassigned_variable lectures domains (assignment st)")
      case None
      then show ?thesis by (simp add: backtrack_unfold)
    next
      case (Some x)
      then have "x \<in> set (unassigned_vars lectures (assignment (step_state lectures st)))"
        by (auto dest!: select_unassigned)
      from q [rule_format, OF this] le Some show ?thesis
        by (simp add: backtrack_unfold)
    qed
  qed
next
  fix fuel var_name st
  show "var_name \<in> set (unassigned_vars lectures (assignment st)) \<longrightarrow>
      length (unassigned_vars lectures (assignment st)) \<le> fuel \<longrightarrow>
      try_values fuel lectures domains e timeout var_name [] st \<noteq> None"
    by simp
next
  fix fuel var_name v vs st
  assume p: "\<And>fuel' st'. fuel = Suc fuel' \<Longrightarrow>
      length (unassigned_vars lectures (assignment st')) \<le> fuel' \<longrightarrow>
      backtrack fuel' lectures domains e timeout st' \<noteq> None"
    and q: "\<And>st'. var_name \<in> set (unassigned_vars lectures (assignment st')) \<longrightarrow>
      length (unassigned_vars lectures (assignment st')) \<le> fuel \<longrightarrow>
      try_values fuel lectures domains e timeout var_name vs st' \<noteq> None"
  show "var_name \<in> set (unassigned_vars lectures (assignment st)) \<longrightarrow>
      length (unassigned_vars lectures (assignment st)) \<le> fuel \<longrightarrow>
      try_values fuel lectures domains e timeout var_name (v # vs) st \<noteq> None"
  proof (intro impI)
    assume un: "var_name \<in> set (unassigned_vars lectures (assignment st))"
      and le: "length (unassigned_vars lectures (assignment st)) \<le> fuel"
    let ?st = "st\<lparr>assignment := dict_set (assignment st) var_name v\<rparr>"
    from un have nc: "\<not> dict_contains (assignment st) var_name"
      by (rule unassigned_not_assigned)
    from un have "0 < length (unassigned_vars lectures (assignment st))"
      by (cases "unassigned_vars lectures (assignment st)") auto
    with le obtain fuel' where Suc: "fuel = Suc fuel'" by (cases fuel) auto
    show "try_values fuel lectures domains e timeout var_name (v # vs) st \<noteq> None"
    proof (cases "is_consistent var_name v (assignment st) lectures")
      case False
      with q [of st] un le show ?thesis by simp
    next
      case c: True
      from unassigned_shrinks [OF un, of v] le Suc
      have "length (unassigned_vars lectures (assignment ?st)) \<le> fuel'" by simp
      with p [OF Suc, of ?st]
      have b: "backtrack fuel' lectures domains e timeout ?st \<noteq> None" by simp
      have k: "keeps (dict_set (assignment st) var_name v)
                 (backtrack fuel' lectures domains e timeout ?st)"
        using backtrack_keeps [of ?st fuel' lectures domains e timeout] by simp
      from b obtain r st' where
        Some: "backtrack fuel' lectures domains e timeout ?st = Some (r, st')" by auto
      show ?thesis
      proof (cases r)
        case (Inl err)
        with k Some show ?thesis by (simp add: keeps_def)
      next
        case (Inr x)
        show ?thesis
        proof (cases x)
          case None
          with k Some Inr have ka: "assignment st' = dict_set (assignment st) var_name v"
            by (simp add: keeps_def)
          then have dc: "dict_contains (assignment st') var_name"
            by (simp add: dict_contains_set)
          let ?st2 = "st'\<lparr>assignment := dict_del (assignment st') var_name\<rparr>"
          have a2: "assignment ?st2 = assignment st"
            using ka nc by (simp add: dict_del_set)
          with q [of ?st2] un le
          have "try_values fuel lectures domains e timeout var_name vs ?st2 \<noteq> None"
            by simp
          with c Suc Some Inr None dc show ?thesis by simp
        next
          case (Some sol)
          with \<open>backtrack fuel' lectures domains e timeout ?st = Some (r, st')\<close> Inr c Suc
          show ?thesis by simp
        qed
      qed
    qed
  qed
qed

lemma check_all_empty: "check_all_constraints [] lectures"
  by (simp add: check_all_constraints_def no_instructor_conflict_def no_room_conflict_def
      no_student_conflict_def instructor_schedule_def room_schedule_def student_schedule_def)

lemma backtrack_initial_returns:
  "backtrack (length lectures) lectures domains e timeout initial_state \<noteq> None"
proof -
  have "length (unassigned_vars lectures (assignment initial_state)) \<le> length lectures"
    by (simp add: unassigned_vars_def initial_state_def)
  with search_returns [THEN conjunct1, of lectures initial_state "length lectures"]
  show ?thesis by simp
qed

lemma solve_returns: "\<exists>r st. solve lectures domains e timeout = Some (Inr r, st)"
proof -
  from backtrack_initial_returns [of lectures domains e timeout] obtain r st where
    b: "backtrack (length lectures) lectures domains e timeout initial_state = Some (r, st)"
    by auto
  from backtrack_keeps [of initial_state "length lectures" lectures domains e timeout] b
  obtain x where "r = Inr x" by (cases r) (auto simp: keeps_def)
  with b show ?thesis by (simp add: solve_def)
qed

lemma late_run: "solve demo_lectures clash_domains late_env 300 =
  Some (Inr None, \<lparr>assignment = [], iterations = 1, printed = [TimeoutReached, NoSolutionFound]\<rparr>)"
  by code_simp

lemma clash_run: "solve demo_lectures clash_domains still_env 300 =
  Some (Inr None, \<lparr>assignment = [], iterations = 2, printed = [NoSolutionFound]\<rparr>)"
  by code_simp

lemma demo_run: "solve demo_lectures demo_domains still_env 300 =
  Some (Inr (Some [(''S1_PHY113_L1'', ''TS0'', ''R102'', ''PROF02''),
                   (''S1_MTH101_L1'', ''TS1'', ''R101'', ''PROF01'')]),
        \<lparr>assignment = [(''S1_PHY113_L1'', ''TS0'', ''R102'', ''PROF02''),
                   (''S1_MTH101_L1'', ''TS1'', ''R101'', ''PROF01'')],
         iterations = 3, printed = [SolutionFound]\<rparr>)"
  by code_simp

text \<open>
  Claim C1 (soundness of the search).  Every assignment that \<open>solve\<close> returns is
  accepted by the constraint checker: \<open>get_conflicts\<close> finds no instructor, room or
  section double-booking in it, and it assigns as many variables as there are lectures.
\<close>

theorem solve_sound:
  assumes "solve lectures domains e timeout = Some (Inr (Some sol), st)"
  shows "get_conflicts sol lectures = [] \<and> length sol = length lectures"
proof -
  from assms obtain st' where
    b: "backtrack (length lectures) lectures domains e timeout initial_state
          = Some (Inr (Some sol), st')"
    by (auto simp: solve_def split: option.splits sum.splits)
  have "check_all_constraints (assignment initial_state) lectures"
    by (simp add: initial_state_def check_all_empty)
  with search_sound [THEN conjunct1, of initial_state lectures "length lectures" domains e timeout] b
  have "check_all_constraints sol lectures \<and> length sol = length lectures"
    by (simp add: sound_result_def)
  then show ?thesis by (simp add: check_all_no_conflicts)
qed

text \<open>
  Witness for C1: the run on \<open>demo_lectures\<close>, which returns a two-lecture timetable.
\<close>

theorem solve_sound_witness:
  "solve demo_lectures demo_domains still_env 300 =
     Some (Inr (Some [(''S1_PHY113_L1'', ''TS0'', ''R102'', ''PROF02''),
                      (''S1_MTH101_L1'', ''TS1'', ''R101'', ''PROF01'')]),
        \<lparr>assignment = [(''S1_PHY113_L1'', ''TS0'', ''R102'', ''PROF02''),
                   (''S1_MTH101_L1'', ''TS1'', ''R101'', ''PROF01'')],
         iterations = 3, printed = [SolutionFound]\<rparr>) \<and>
   get_conflicts [(''S1_PHY113_L1'', ''TS0'', ''R102'', ''PROF02''),
                  (''S1_MTH101_L1'', ''TS1'', ''R101'', ''PROF01'')] demo_lectures = [] \<and>
   length [(''S1_PHY113_L1'', ''TS0'', ''R102'', ''PROF02''),
           (''S1_MTH101_L1'', ''TS1'', ''R101'', ''PROF01'')] = length demo_lectures"
  using demo_run solve_sound [OF demo_run] by simp

text \<open>
  Claim C10 (rollback on failure).  When \<open>solve\<close> returns \<open>None\<close>, by exhaustion or by
  a timeout at any depth, every tentative commit has been undone: the assignment of the
  solver is empty.
\<close>

theorem solve_failure_rolls_back:
  assumes "solve lectures domains e timeout = Some (Inr None, st)"
  shows "assignment st = []"
proof -
  from assms obtain st' where
    b: "backtrack (length lectures) lectures domains e timeout initial_state = Some (Inr None, st')"
    and s: "assignment st = assignment st'"
    by (auto simp: solve_def split: option.splits sum.splits)
  from backtrack_keeps [of initial_state "length lectures" lectures domains e timeout] b
  have "assignment st' = []" by (simp add: keeps_def initial_state_def)
  with s show ?thesis by simp
qed

text \<open>
  Witness for C10: the exhausted run on \<open>clash_domains\<close>.
\<close>

theorem solve_failure_rolls_back_witness:
  "solve demo_lectures clash_domains still_env 300 =
     Some (Inr None, \<lparr>assignment = [], iterations = 2, printed = [NoSolutionFound]\<rparr>) \<and>
   assignment \<lparr>assignment = [], iterations = 2, printed = [NoSolutionFound]\<rparr> = []"
  using clash_run solve_failure_rolls_back [OF clash_run] by simp

lemma trace_ok_step:
  assumes "\<not> expired e timeout (Suc (iterations st))"
    and "trace_ok e timeout (step_state lectures st) res"
  shows "trace_ok e timeout st res"
proof (cases res)
  case None
  then show ?thesis by (simp add: trace_ok_def)
next
  case (Some p)
  obtain r st' where p: "p = (r, st')" by (cases p)
  from assms(2) Some p obtain msgs where
    le: "Suc (iterations st) \<le> iterations st'"
    and pr: "printed st' = printed (step_state lectures st) @ msgs"
    and iff: "TimeoutReached \<in> set msgs \<longleftrightarrow>
              (\<exists>i. Suc (iterations st) < i \<and> i \<le> iterations st' \<and> expired e timeout i)"
    by (auto simp: trace_ok_def)
  obtain pm where pm: "printed (step_state lectures st) = printed st @ pm"
    and npm: "TimeoutReached \<notin> set pm"
    by (cases "Suc (iterations st) mod 100 = 0") (auto simp: step_state_def)
  have "(\<exists>i. iterations st < i \<and> i \<le> iterations st' \<and> expired e timeout i) \<longleftrightarrow>
        (\<exists>i. Suc (iterations st) < i \<and> i \<le> iterations st' \<and> expired e timeout i)"
  proof
    assume "\<exists>i. iterations st < i \<and> i \<le> iterations st' \<and> expired e timeout i"
    then obtain i where i: "iterations st < i" "i \<le> iterations st'" "expired e timeout i"
      by blast
    with assms(1) have "i \<noteq> Suc (iterations st)" by auto
    with i have "Suc (iterations st) < i" by simp
    with i show "\<exists>i. Suc (iterations st) < i \<and> i \<le> iterations st' \<and> expired e timeout i"
      by blast
  next
    assume "\<exists>i. Suc (iterations st) < i \<and> i \<le> iterations st' \<and> expired e timeout i"
    then show "\<exists>i. iterations st < i \<and> i \<le> iterations st' \<and> expired e timeout i"
      by (meson Suc_lessD)
  qed
  with iff npm have "TimeoutReached \<in> set (pm @ msgs) \<longleftrightarrow>
        (\<exists>i. iterations st < i \<and> i \<le> iterations st' \<and> expired e timeout i)"
    by simp
  moreover from pr pm have "printed st' = printed st @ (pm @ msgs)" by simp
  moreover from le have "iterations st \<le> iterations st'" by simp
  ultimately show ?thesis unfolding trace_ok_def Some p by (simp del: append_assoc)
qed

lemma trace_ok_refl: "trace_ok e timeout st (Some (r, st))"
  by (simp add: trace_ok_def)

lemma trace_ok_trans:
  assumes "trace_ok e timeout st (Some (r, st1))"
    and "iterations st2 = iterations st1" and "printed st2 = printed st1"
    and "trace_ok e timeout st2 res"
  shows "trace_ok e timeout st res"
proof (cases res)
  case None
  then show ?thesis by (simp add: trace_ok_def)
next
  case (Some p)
  obtain r' st' where p: "p = (r', st')" by (cases p)
  from assms(1) obtain m1 where
    le1: "iterations st \<le> iterations st1" and pr1: "printed st1 = printed st @ m1"
    and iff1: "TimeoutReached \<in> set m1 \<longleftrightarrow>
              (\<exists>i. iterations st < i \<and> i \<le> iterations st1 \<and> expired e timeout i)"
    by (auto simp: trace_ok_def)
  from assms(2-4) Some p obtain m2 where
    le2: "iterations st1 \<le> iterations st'" and pr2: "printed st' = printed st1 @ m2"
    and iff2: "TimeoutReached \<in> set m2 \<longleftrightarrow>
              (\<exists>i. iterations st1 < i \<and> i \<le> iterations st' \<and> expired e timeout i)"
    by (auto simp: trace_ok_def)
  have "(\<exists>i. iterations st < i \<and> i \<le> iterations st' \<and> expired e timeout i) \<longleftrightarrow>
        (\<exists>i. iterations st < i \<and> i \<le> iterations st1 \<and> expired e timeout i) \<or>
        (\<exists>i. iterations st1 < i \<and> i \<le> iterations st' \<and> expired e timeout i)"
    using le1 le2 by (meson le_less_trans less_le_trans not_le_imp_less order_trans)
  with iff1 iff2 have "TimeoutReached \<in> set (m1 @ m2) \<longleftrightarrow>
        (\<exists>i. iterations st < i \<and> i \<le> iterations st' \<and> expired e timeout i)"
    by simp
  moreover from pr1 pr2 have "printed st' = printed st @ (m1 @ m2)" by simp
  moreover from le1 le2 have "iterations st \<le> iterations st'" by simp
  ultimately show ?thesis unfolding trace_ok_def Some p by (simp del: append_assoc)
qed

lemma search_trace:
  "trace_ok e timeout st (backtrack fuel lectures domains e timeout st) \<and>
   trace_ok e timeout st (try_values fuel lectures domains e timeout var_name vs st)"
proof (rule search_induct [where
      P = "\<lambda>fuel st. trace_ok e timeout st (backtrack fuel lectures domains e timeout st)" and
      Q = "\<lambda>fuel var_name vs st.
             trace_ok e timeout st (try_values fuel lectures domains e timeout var_name vs st)"])
  fix fuel st
  assume q: "\<And>var_name vs st'.
             trace_ok e timeout st' (try_values fuel lectures domains e timeout var_name vs st')"
  show "trace_ok e timeout st (backtrack fuel lectures domains e timeout st)"
  proof (cases "expired e timeout (Suc (iterations st))")
    case True
    then show ?thesis
      by (simp add: backtrack_unfold trace_ok_def timed_out_state_def) auto
  next
    case ne: False
    have "trace_ok e timeout (step_state lectures st)
            (backtrack fuel lectures domains e timeout st)"
    proof (cases "select_unassigned_variable lectures domains (assignment st)")
      case None
      with ne show ?thesis by (simp add: backtrack_unfold trace_ok_refl)
    next
      case (Some x)
      with ne q show ?thesis
        by (simp add: backtrack_unfold trace_ok_refl)
    qed
    with ne show ?thesis by (rule trace_ok_step)
  qed
next
  fix fuel var_name st
  show "trace_ok e timeout st (try_values fuel lectures domains e timeout var_name [] st)"
    by (simp add: trace_ok_refl)
next
  fix fuel var_name v vs and st :: solver_state
  assume p: "\<And>fuel' st'. fuel = Suc fuel' \<Longrightarrow>
      trace_ok e timeout st' (backtrack fuel' lectures domains e timeout st')"
    and q: "\<And>st'.
      trace_ok e timeout st' (try_values fuel lectures domains e timeout var_name vs st')"
  let ?st = "st\<lparr>assignment := dict_set (assignment st) var_name v\<rparr>"
  show "trace_ok e timeout st (try_values fuel lectures domains e timeout var_name (v # vs) st)"
  proof (cases "is_consistent var_name v (assignment st) lectures")
    case False
    with q [of st] show ?thesis by simp
  next
    case c: True
    show ?thesis
    proof (cases fuel)
      case 0
      with c show ?thesis by (simp add: trace_ok_def)
    next
      case (Suc fuel')
      from p [OF Suc, of ?st]
      have b: "trace_ok e timeout ?st (backtrack fuel' lectures domains e timeout ?st)" .
      show ?thesis
      proof (cases "backtrack fuel' lectures domains e timeout ?st")
        case None
        with c Suc show ?thesis by (simp add: trace_ok_def)
      next
        case (Some p)
        obtain r st' where p: "p = (r, st')" by (cases p)
        from b Some p have b': "trace_ok e timeout st (Some (r, st'))"
          by (simp add: trace_ok_def)
        show ?thesis
        proof (cases r)
          case (Inl err)
          with b' Some p c Suc show ?thesis by simp
        next
          case (Inr x)
          show ?thesis
          proof (cases x)
            case None
            let ?st2 = "st'\<lparr>assignment := dict_del (assignment st') var_name\<rparr>"
            show ?thesis
            proof (cases "dict_contains (assignment st') var_name")
              case True
              have "trace_ok e timeout st
                      (try_values fuel lectures domains e timeout var_name vs ?st2)"
                by (rule trace_ok_trans [OF b' _ _ q [of ?st2]]) simp_all
              with c Suc Some p Inr None True show ?thesis by simp
            next
              case False
              with b' c Suc Some p Inr None show ?thesis by (simp add: trace_ok_def)
            qed
          next
            case (Some sol)
            with b' \<open>backtrack fuel' lectures domains e timeout ?st = Some p\<close> p Inr c Suc
            show ?thesis by simp
          qed
        qed
      qed
    qed
  qed
qed

lemma mrv_loop_min:
  assumes "b = None \<longrightarrow> m = \<infinity>" and "\<forall>y. b = Some y \<longrightarrow> m = enat (rem y)"
  shows "(\<forall>u \<in> set us. fst (mrv_loop rem us (m, b)) \<le> enat (rem u)) \<and>
         fst (mrv_loop rem us (m, b)) \<le> m \<and>
         (snd (mrv_loop rem us (m, b)) = None \<longrightarrow> fst (mrv_loop rem us (m, b)) = \<infinity>) \<and>
         (\<forall>y. snd (mrv_loop rem us (m, b)) = Some y \<longrightarrow>
               fst (mrv_loop rem us (m, b)) = enat (rem y))"
  using assms
proof (induction us arbitrary: m b)
  case Nil
  then show ?case by simp
next
  case (Cons u us)
  show ?case
  proof (cases "enat (rem u) < m")
    case True
    let ?r = "mrv_loop rem us (enat (rem u), Some u)"
    have r: "mrv_loop rem (u # us) (m, b) = ?r" using True by simp
    have ih: "(\<forall>u' \<in> set us. fst ?r \<le> enat (rem u')) \<and> fst ?r \<le> enat (rem u) \<and>
         (snd ?r = None \<longrightarrow> fst ?r = \<infinity>) \<and>
         (\<forall>y. snd ?r = Some y \<longrightarrow> fst ?r = enat (rem y))"
      by (rule Cons.IH) simp_all
    then have "fst ?r \<le> enat (rem u)" by simp
    with True have "fst ?r \<le> m" by (simp add: order.strict_implies_order order.trans)
    with ih show ?thesis unfolding r by simp
  next
    case False
    let ?r = "mrv_loop rem us (m, b)"
    have r: "mrv_loop rem (u # us) (m, b) = ?r" using False by simp
    have ih: "(\<forall>u' \<in> set us. fst ?r \<le> enat (rem u')) \<and> fst ?r \<le> m \<and>
         (snd ?r = None \<longrightarrow> fst ?r = \<infinity>) \<and>
         (\<forall>y. snd ?r = Some y \<longrightarrow> fst ?r = enat (rem y))"
      using Cons.prems by (intro Cons.IH)
    then have "fst ?r \<le> m" by simp
    moreover from False have "m \<le> enat (rem u)" by simp
    ultimately have "fst ?r \<le> enat (rem u)" by (rule order.trans)
    with ih show ?thesis unfolding r by simp
  qed
qed

lemma select_zero:
  assumes "u \<in> set (unassigned_vars lectures a)"
    and "remaining_values lectures domains a u = 0"
  shows "\<exists>y. select_unassigned_variable lectures domains a = Some y \<and>
             remaining_values lectures domains a y = 0"
proof -
  let ?r = "mrv_loop (remaining_values lectures domains a) (unassigned_vars lectures a) (\<infinity>, None)"
  from mrv_loop_min [of None \<infinity> "remaining_values lectures domains a" "unassigned_vars lectures a"]
  have le: "\<forall>u \<in> set (unassigned_vars lectures a).
              fst ?r \<le> enat (remaining_values lectures domains a u)"
    and none: "snd ?r = None \<longrightarrow> fst ?r = \<infinity>"
    and some: "\<forall>y. snd ?r = Some y \<longrightarrow> fst ?r = enat (remaining_values lectures domains a y)"
    by simp_all
  from le assms(1) have "fst ?r \<le> enat (remaining_values lectures domains a u)" by blast
  with assms(2) have "fst ?r \<le> 0" by (simp add: zero_enat_def)
  then have z: "fst ?r = 0" by simp
  with none obtain y where y: "snd ?r = Some y" by (cases "snd ?r") auto
  with some z have "remaining_values lectures domains a y = 0" by (simp add: zero_enat_def)
  moreover from assms(1) y have "select_unassigned_variable lectures domains a = Some y"
    by (auto simp: select_unassigned_variable_def Let_def)
  ultimately show ?thesis by blast
qed

lemma is_consistent_empty: "is_consistent x v [] lectures"
  by (cases v)
     (simp add: is_consistent_def check_all_constraints_def no_instructor_conflict_def
        no_room_conflict_def no_student_conflict_def instructor_schedule_def room_schedule_def
        student_schedule_def split: option.splits)

lemma remaining_values_empty:
  "remaining_values lectures domains [] x = length (dict_get_default domains x [])"
  by (simp add: remaining_values_def is_consistent_empty)

lemma shuffle_ok_Nil: "shuffle_ok e \<Longrightarrow> shuffle e i [] = []"
  using mset_zero_iff by (fastforce simp: shuffle_ok_def)

text \<open>
  Claim C3 (empty-domain short-circuit).  When some lecture has an empty domain, or no
  entry in the domains mapping, \<open>solve\<close> returns \<open>None\<close> after a single call of
  \<open>_backtrack\<close> and with an empty assignment: no value is committed and no nested call
  is made.  Unless the timeout has already expired at the first test, the call selects
  a variable whose ordered domain is empty, tries no value, and prints nothing but the
  final ``NO SOLUTION FOUND''.
\<close>

theorem solve_empty_domain:
  assumes "shuffle_ok e" and "l \<in> set lectures"
    and "dict_get_default domains (get_variable_name l) [] = []"
  shows "\<exists>st. solve lectures domains e timeout = Some (Inr None, st) \<and>
           iterations st = 1 \<and> assignment st = [] \<and>
           (\<not> clock e 1 - clock e 0 > real_of_int timeout \<longrightarrow>
              printed st = [NoSolutionFound] \<and>
              (\<exists>x. select_unassigned_variable lectures domains [] = Some x \<and>
                   order_domain_values e 1 (dict_get_default domains x []) = []))"
proof (cases "expired e timeout 1")
  case True
  then show ?thesis
    by (simp add: solve_def backtrack_unfold initial_state_def timed_out_state_def expired_def)
next
  case False
  from assms(2) have ne: "lectures \<noteq> []" by auto
  from assms(2) have "get_variable_name l \<in> set (unassigned_vars lectures [])"
    by (simp add: unassigned_vars_def dict_contains_def)
  moreover from assms(3) have "remaining_values lectures domains [] (get_variable_name l) = 0"
    by (simp add: remaining_values_empty)
  ultimately obtain x where x: "select_unassigned_variable lectures domains [] = Some x"
    and "remaining_values lectures domains [] x = 0"
    by (blast dest: select_zero)
  then have "dict_get_default domains x [] = []"
    by (simp add: remaining_values_empty)
  with assms(1) have o: "order_domain_values e 1 (dict_get_default domains x []) = []"
    by (simp add: order_domain_values_def shuffle_ok_Nil)
  from False ne x o show ?thesis
    by (simp add: solve_def backtrack_unfold initial_state_def step_state_def expired_def)
qed

text \<open>
  Witness for C3: the physics lecture has no entry in \<open>lone_domains\<close>.
\<close>

theorem solve_empty_domain_witness:
  "shuffle_ok still_env \<and> phy_lecture \<in> set demo_lectures \<and>
   dict_get_default lone_domains (get_variable_name phy_lecture) [] = [] \<and>
   (\<exists>st. solve demo_lectures lone_domains still_env 300 = Some (Inr None, st) \<and>
      iterations st = 1 \<and> assignment st = [] \<and> printed st = [NoSolutionFound])"
proof -
  have h1: "shuffle_ok still_env" by (simp add: shuffle_ok_def still_env_def)
  have h2: "phy_lecture \<in> set demo_lectures" by (simp add: demo_lectures_def phy_lecture_def)
  have h3: "dict_get_default lone_domains (get_variable_name phy_lecture) [] = []"
    by code_simp
  have h4: "\<not> clock still_env 1 - clock still_env 0 > real_of_int 300"
    by (simp add: still_env_def)
  have "\<exists>st. solve demo_lectures lone_domains still_env 300 = Some (Inr None, st) \<and>
           iterations st = 1 \<and> assignment st = [] \<and>
           (\<not> clock still_env 1 - clock still_env 0 > real_of_int 300 \<longrightarrow>
              printed st = [NoSolutionFound] \<and>
              (\<exists>x. select_unassigned_variable demo_lectures lone_domains [] = Some x \<and>
                   order_domain_values still_env 1 (dict_get_default lone_domains x []) = []))"
    by (rule solve_empty_domain [OF h1 h2 h3])
  with h4 have "\<exists>st. solve demo_lectures lone_domains still_env 300 = Some (Inr None, st) \<and>
      iterations st = 1 \<and> assignment st = [] \<and> printed st = [NoSolutionFound]"
    by blast
  with h1 h2 h3 show ?thesis by (intro conjI)
qed

text \<open>
  Claim C5, as the program has it.  \<open>solve\<close> validates nothing.  With a negative timeout
  and a clock that does not run backwards, its first step takes the timeout branch and it
  returns \<open>None\<close>, the value of a failed search.  With no lectures and a timeout that has
  not expired it returns the empty assignment.
\<close>

theorem solve_unvalidated:
  "(timeout < 0 \<and> clock e 0 \<le> clock e 1 \<longrightarrow>
      solve lectures domains e timeout =
        Some (Inr None, \<lparr>assignment = [], iterations = 1,
                         printed = [TimeoutReached, NoSolutionFound]\<rparr>)) \<and>
   (\<not> clock e 1 - clock e 0 > real_of_int timeout \<longrightarrow>
      solve [] domains e timeout =
        Some (Inr (Some []), \<lparr>assignment = [], iterations = 1, printed = [NoSolutionFound]\<rparr>))"
  by (simp add: solve_def backtrack_unfold initial_state_def timed_out_state_def step_state_def
      expired_def)

text \<open>
  Witness for C5 as amended: a timeout of \<open>-1\<close>, and an empty list of lectures.
\<close>

theorem solve_unvalidated_witness:
  "(- 1 :: int) < 0 \<and> clock still_env 0 \<le> clock still_env 1 \<and>
   solve demo_lectures demo_domains still_env (- 1) =
     Some (Inr None, \<lparr>assignment = [], iterations = 1,
                      printed = [TimeoutReached, NoSolutionFound]\<rparr>) \<and>
   \<not> clock still_env 1 - clock still_env 0 > real_of_int 300 \<and>
   solve [] demo_domains still_env 300 =
     Some (Inr (Some []), \<lparr>assignment = [], iterations = 1, printed = [NoSolutionFound]\<rparr>)"
  using solve_unvalidated [of "- 1" still_env demo_lectures demo_domains]
    solve_unvalidated [of 300 still_env demo_lectures demo_domains]
  by (simp add: still_env_def)

text \<open>
  Counterexample to C5 as stated: the call with timeout \<open>-1\<close> runs a search step and
  returns what a timed-out search returns; the call with no lectures returns an
  assignment.
\<close>

theorem solve_accepts_malformed:
  "solve demo_lectures demo_domains still_env (- 1) =
     Some (Inr None, \<lparr>assignment = [], iterations = 1,
                      printed = [TimeoutReached, NoSolutionFound]\<rparr>) \<and>
   solve demo_lectures clash_domains late_env 300 =
     Some (Inr None, \<lparr>assignment = [], iterations = 1,
                      printed = [TimeoutReached, NoSolutionFound]\<rparr>) \<and>
   solve [] [] still_env 300 =
     Some (Inr (Some []), \<lparr>assignment = [], iterations = 1, printed = [NoSolutionFound]\<rparr>)"
  by code_simp

text \<open>
  Claim C4, as the program has it.  A call of \<open>solve\<close> that produces no assignment
  returns \<open>None\<close>, whatever the cause.  The timed-out outcome shows only in the output:
  ``Timeout reached!'' is printed exactly when one of the timeout tests of the search
  fired.
\<close>

theorem solve_failure_value:
  assumes "solve lectures domains e timeout = Some (r, st)"
    and "\<forall>sol. r \<noteq> Inr (Some sol)"
  shows "r = Inr None \<and>
         (TimeoutReached \<in> set (printed st) \<longleftrightarrow>
            (\<exists>i. 1 \<le> i \<and> i \<le> iterations st \<and> clock e i - clock e 0 > real_of_int timeout))"
proof -
  from solve_returns [of lectures domains e timeout] assms have r: "r = Inr None"
    by (cases r) auto
  with assms(1) obtain st' where
    b: "backtrack (length lectures) lectures domains e timeout initial_state = Some (Inr None, st')"
    and s: "st = st'\<lparr>printed := printed st' @ [NoSolutionFound]\<rparr>"
    by (auto simp: solve_def split: option.splits sum.splits)
  from search_trace [THEN conjunct1, of e timeout initial_state "length lectures" lectures domains] b
  obtain msgs where "printed st' = msgs"
    and "TimeoutReached \<in> set msgs \<longleftrightarrow>
           (\<exists>i. 0 < i \<and> i \<le> iterations st' \<and> expired e timeout i)"
    by (auto simp: trace_ok_def initial_state_def)
  with s have "TimeoutReached \<in> set (printed st) \<longleftrightarrow>
            (\<exists>i. 1 \<le> i \<and> i \<le> iterations st \<and> clock e i - clock e 0 > real_of_int timeout)"
    by (auto simp: expired_def Suc_le_eq)
  with r show ?thesis by simp
qed

text \<open>
  Witness for C4 as amended: the run under \<open>late_env\<close>, whose first timeout test fires.
\<close>

theorem solve_failure_value_witness:
  "solve demo_lectures clash_domains late_env 300 =
     Some (Inr None, \<lparr>assignment = [], iterations = 1,
                      printed = [TimeoutReached, NoSolutionFound]\<rparr>) \<and>
   (\<exists>i. 1 \<le> i \<and> i \<le> (1::nat) \<and> clock late_env i - clock late_env 0 > real_of_int 300)"
proof -
  have h: "\<forall>sol. (Inr None :: py_error + assignment option) \<noteq> Inr (Some sol)" by simp
  from solve_failure_value [OF late_run h] late_run show ?thesis by simp
qed

text \<open>
  Counterexample to C4 as stated: an exhausted search and a timed-out search return the
  same value \<open>None\<close>, with the assignment emptied, so the returned value tells neither
  the cause nor a partial-assignment size.
\<close>

theorem solve_failures_same_value:
  "solve demo_lectures clash_domains still_env 300 =
     Some (Inr None, \<lparr>assignment = [], iterations = 2, printed = [NoSolutionFound]\<rparr>) \<and>
   solve demo_lectures clash_domains late_env 300 =
     Some (Inr None, \<lparr>assignment = [], iterations = 1,
                      printed = [TimeoutReached, NoSolutionFound]\<rparr>)"
  using clash_run late_run by simp

section \<open>Properties of the domain generator\<close>

lemma dict_set_entries:
  "(k, v) \<in> set (dict_set d k' v') \<Longrightarrow> (k, v) \<in> set d \<or> (k = k' \<and> v = v')"
  by (induction d) (auto split: if_splits)

lemma build_domains_from_entries:
  "(k, dmn) \<in> set (build_domains_from ld doms lectures) \<Longrightarrow>
     (k, dmn) \<in> set doms \<or>
     (\<exists>l \<in> set lectures. get_variable_name l = k \<and> lecture_domain ld l = Some dmn)"
proof (induction lectures arbitrary: doms)
  case Nil
  then show ?case by (simp add: build_domains_from_def)
next
  case (Cons l ls)
  let ?d = "case lecture_domain ld l of None \<Rightarrow> doms
            | Some domain \<Rightarrow> dict_set doms (get_variable_name l) domain"
  from Cons.prems have "(k, dmn) \<in> set (build_domains_from ld ?d ls)"
    by (simp add: build_domains_from_def)
  from Cons.IH [OF this] show ?case
    by (auto split: option.splits dest: dict_set_entries)
qed

lemma lecture_domain_filters:
  assumes "lecture_domain ld l = Some dmn" and "(ts, room, inst) \<in> set dmn"
  shows "\<exists>course_info day.
      get_course_info ld (course_id l) = Some course_info \<and>
      room \<in> set (get_rooms_by_type ld
          (if str_contains (Course_Type course_info) ''Lab'' then ''Lab'' else ''Lecture'')) \<and>
      inst \<in> set (get_qualified_instructors ld (course_id l)) \<and>
      timeslot_day ld ts = Some day \<and> \<not> unavailable_on ld inst day"
proof -
  from assms(1) obtain c where c: "get_course_info ld (course_id l) = Some c"
    by (auto simp: lecture_domain_def split: option.splits)
  let ?rt = "if str_contains (Course_Type c) ''Lab'' then ''Lab'' else ''Lecture''"
  let ?q = "get_qualified_instructors ld (course_id l)"
  let ?per_slot = "\<lambda>ts. case timeslot_day ld ts of
                      None \<Rightarrow> []
                    | Some day \<Rightarrow>
                        [(ts, room, inst).
                           room \<leftarrow> get_rooms_by_type ld ?rt,
                           inst \<leftarrow> ?q,
                           \<not> unavailable_on ld inst day]"
  from assms(1) c have d: "dmn = concat (map ?per_slot (map TimeSlotID (timeslots ld)))"
    by (simp add: lecture_domain_def Let_def split: if_splits)
  with assms(2) obtain ts' where m: "(ts, room, inst) \<in> set (?per_slot ts')"
    by auto
  then obtain day where t: "timeslot_day ld ts' = Some day"
    by (cases "timeslot_day ld ts'") auto
  with m have "ts = ts'" and "room \<in> set (get_rooms_by_type ld ?rt)" and "inst \<in> set ?q"
    and "\<not> unavailable_on ld inst day"
    by auto
  with c t show ?thesis by blast
qed

lemma small_lectures_eval:
  "small_lectures =
     [Lecture ''MTH101'' ''S1'' 1, Lecture ''MTH101'' ''S1'' 2,
      Lecture ''PHY113'' ''S1'' 1, Lecture ''CHM101'' ''S1'' 1]"
  by code_simp

lemma small_domains_eval:
  "build_domains small_loader small_lectures =
    [(''S1_MTH101_L1'', [(''TS4'', ''R101'', ''PROF01'')]),
     (''S1_MTH101_L2'', [(''TS4'', ''R101'', ''PROF01'')]),
     (''S1_PHY113_L1'', phy_domain)]"
  by code_simp

text \<open>
  Claim C2 (unary filters of the domains).  Every triple of a domain that
  \<open>build_domains\<close> stores was generated for a lecture with that key, and for that
  lecture: the room is one of the type the course requires (a lab exactly when the
  course type mentions ``Lab''), the instructor is qualified for the course of the
  lecture, and the instructor is not marked unavailable on the weekday of the timeslot.
  A mark is the non-empty weekday name that follows ``Not on'' in the preferred slots of
  the instructor.
\<close>

theorem build_domains_unary_filters:
  assumes "(var_name, domain) \<in> set (build_domains ld lectures)"
    and "(ts, room, inst) \<in> set domain"
  shows "\<exists>l course_info day.
      l \<in> set lectures \<and> get_variable_name l = var_name \<and>
      get_course_info ld (course_id l) = Some course_info \<and>
      (\<exists>r \<in> set (rooms ld). RoomID r = room \<and>
         Room_Type r = (if str_contains (Course_Type course_info) ''Lab''
                        then ''Lab'' else ''Lecture'')) \<and>
      (\<exists>i \<in> set (instructors ld). InstructorID i = inst \<and>
         course_id l \<in> set (map strip (split_on CHR '','' (QualifiedCourses i)))) \<and>
      timeslot_day ld ts = Some day \<and>
      \<not> (get_instructor_unavailable_day ld inst = Some day \<and> day \<noteq> [])"
proof -
  from assms(1) obtain l where l: "l \<in> set lectures" "get_variable_name l = var_name"
    and d: "lecture_domain ld l = Some domain"
    by (auto simp: build_domains_def dest: build_domains_from_entries)
  from lecture_domain_filters [OF d assms(2)] obtain course_info day where
    c: "get_course_info ld (course_id l) = Some course_info"
    and r: "room \<in> set (get_rooms_by_type ld
          (if str_contains (Course_Type course_info) ''Lab'' then ''Lab'' else ''Lecture''))"
    and i: "inst \<in> set (get_qualified_instructors ld (course_id l))"
    and t: "timeslot_day ld ts = Some day" and u: "\<not> unavailable_on ld inst day"
    by blast
  from r have r': "\<exists>r \<in> set (rooms ld). RoomID r = room \<and>
         Room_Type r = (if str_contains (Course_Type course_info) ''Lab''
                        then ''Lab'' else ''Lecture'')"
    by (auto simp: get_rooms_by_type_def)
  from i have i': "\<exists>i \<in> set (instructors ld). InstructorID i = inst \<and>
         course_id l \<in> set (map strip (split_on CHR '','' (QualifiedCourses i)))"
    by (auto simp: get_qualified_instructors_def)
  from u have u': "\<not> (get_instructor_unavailable_day ld inst = Some day \<and> day \<noteq> [])"
    by (auto simp: unavailable_on_def)
  from l c r' i' t u' show ?thesis by blast
qed

text \<open>
  Witness for C2: a triple of the domain of the physics lecture of \<open>small_loader\<close>.
\<close>

theorem build_domains_unary_filters_witness:
  "(''S1_PHY113_L1'', phy_domain) \<in> set (build_domains small_loader small_lectures) \<and>
   (''TS4'', ''L1'', ''PROF01'') \<in> set phy_domain \<and>
   (\<exists>l course_info day.
      l \<in> set small_lectures \<and> get_variable_name l = ''S1_PHY113_L1'' \<and>
      get_course_info small_loader (course_id l) = Some course_info \<and>
      (\<exists>r \<in> set (rooms small_loader). RoomID r = ''L1'' \<and>
         Room_Type r = (if str_contains (Course_Type course_info) ''Lab''
                        then ''Lab'' else ''Lecture'')) \<and>
      (\<exists>i \<in> set (instructors small_loader). InstructorID i = ''PROF01'' \<and>
         course_id l \<in> set (map strip (split_on CHR '','' (QualifiedCourses i)))) \<and>
      timeslot_day small_loader ''TS4'' = Some day \<and>
      \<not> (get_instructor_unavailable_day small_loader ''PROF01'' = Some day \<and> day \<noteq> []))"
proof -
  have h1: "(''S1_PHY113_L1'', phy_domain) \<in> set (build_domains small_loader small_lectures)"
    by (simp add: small_domains_eval)
  have h2: "(''TS4'', ''L1'', ''PROF01'') \<in> set phy_domain"
    by (simp add: phy_domain_def)
  from h1 h2 build_domains_unary_filters [OF h1 h2] show ?thesis
    by (intro conjI)
qed

lemma keys_build_domains_from:
  "set (map fst (build_domains_from ld doms lectures)) =
     set (map fst doms) \<union> get_variable_name ` {l \<in> set lectures. lecture_domain ld l \<noteq> None}"
proof (induction lectures arbitrary: doms)
  case Nil
  show ?case by (simp add: build_domains_from_def)
next
  case (Cons l ls)
  let ?d = "case lecture_domain ld l of None \<Rightarrow> doms
            | Some domain \<Rightarrow> dict_set doms (get_variable_name l) domain"
  have "set (map fst (build_domains_from ld doms (l # ls))) =
      set (map fst ?d) \<union> get_variable_name ` {l \<in> set ls. lecture_domain ld l \<noteq> None}"
    using Cons.IH [of ?d] by (simp add: build_domains_from_def)
  then show ?case
    by (cases "lecture_domain ld l") (auto simp: keys_dict_set [simplified])
qed

text \<open>
  Claim C6, as the program has it.  The keys of the mapping that \<open>build_domains\<close>
  returns are the keys of exactly those lectures whose course is in the course table and
  has at least one qualified instructor.
\<close>

theorem build_domains_keys:
  "set (map fst (build_domains ld lectures)) =
     get_variable_name ` {l \<in> set lectures.
        get_course_info ld (course_id l) \<noteq> None \<and>
        get_qualified_instructors ld (course_id l) \<noteq> []}"
proof -
  have "lecture_domain ld l \<noteq> None \<longleftrightarrow>
        get_course_info ld (course_id l) \<noteq> None \<and>
        get_qualified_instructors ld (course_id l) \<noteq> []" for l
    by (auto simp: lecture_domain_def Let_def split: option.splits)
  then show ?thesis
    using keys_build_domains_from [of ld "[]" lectures] by (simp add: build_domains_def)
qed

text \<open>
  Counterexample to C6 as stated: nobody is qualified for \<open>CHM101\<close>; its lecture is
  created, and its key is absent from the mapping, not bound to the empty domain.
\<close>

theorem build_domains_omits_key:
  "chm_lecture \<in> set small_lectures \<and>
   get_qualified_instructors small_loader (course_id chm_lecture) = [] \<and>
   dict_get (build_domains small_loader small_lectures) (get_variable_name chm_lecture) = None \<and>
   dict_get (build_domains small_loader small_lectures) (get_variable_name chm_lecture) \<noteq> Some []"
proof -
  have "chm_lecture \<in> set small_lectures"
    by (simp add: small_lectures_eval chm_lecture_def)
  moreover have "get_qualified_instructors small_loader (course_id chm_lecture) = []"
    by code_simp
  moreover have "dict_get (build_domains small_loader small_lectures)
                   (get_variable_name chm_lecture) = None"
    unfolding small_domains_eval by code_simp
  ultimately show ?thesis by simp
qed

section \<open>Properties of the quality scorer\<close>

lemma gappy_groups:
  "group_by_section_and_day week_loader gappy_a s1_lectures =
     [((''S1'', ''Sunday''), [''TS0'']), ((''S1'', ''Tuesday''), [''TS8'', ''TS11''])]"
  "group_by_section_and_day week_loader gappy_b s1_lectures =
     [((''S1'', ''Sunday''), [''TS0'', ''TS2'']), ((''S1'', ''Tuesday''), [''TS8''])]"
  by code_simp+

lemma tuesday_sorted: "sort [''TS8'', ''TS11''] = [''TS11'', ''TS8'']"
  by code_simp

lemma gappy_valid:
  "check_all_constraints gappy_a s1_lectures" "check_all_constraints gappy_b s1_lectures"
  by code_simp+

lemma gappy_idle:
  "spec_idle_slots week_loader gappy_a s1_lectures = 2"
  "spec_idle_slots week_loader gappy_b s1_lectures = 1"
  by code_simp+

lemma gappy_penalty:
  "calculate_gap_penalty week_loader default_weights gappy_a s1_lectures = Inr 0"
  "calculate_gap_penalty week_loader default_weights gappy_b s1_lectures = Inr 10"
  by code_simp+

text \<open>
  Claim C9 (monotonicity of the gap penalty) fails on the program.  \<open>gappy_a\<close> and
  \<open>gappy_b\<close> are conflict-free assignments of the same three lectures of one section
  that differ in one timeslot.  \<open>gappy_b\<close> has one idle position (Sunday, between
  \<open>TS0\<close> and \<open>TS2\<close>), \<open>gappy_a\<close> has two (Tuesday, between \<open>TS8\<close> and \<open>TS11\<close>), yet
  the penalty of \<open>gappy_b\<close> is 10 and that of \<open>gappy_a\<close> is 0: \<open>sorted\<close> puts
  \<open>TS11\<close> before \<open>TS8\<close>, the gap size comes out negative, and the Tuesday gap is not
  counted.
\<close>

theorem gap_penalty_not_monotone:
  "check_all_constraints gappy_a s1_lectures \<and> check_all_constraints gappy_b s1_lectures \<and>
   map fst gappy_a = map fst gappy_b \<and>
   spec_idle_slots week_loader gappy_b s1_lectures
     < spec_idle_slots week_loader gappy_a s1_lectures \<and>
   calculate_gap_penalty week_loader default_weights gappy_a s1_lectures = Inr 0 \<and>
   calculate_gap_penalty week_loader default_weights gappy_b s1_lectures = Inr 10"
  using gappy_valid gappy_idle gappy_penalty by (simp add: gappy_a_def gappy_b_def)

lemma room_valid: "check_all_constraints room_a room_lectures"
  by code_simp

lemma room_groups:
  "group_by_section_and_day week_loader room_a room_lectures =
     [((''S1'', ''Sunday''), [''TS0'', ''TS1'']), ((''S2'', ''Sunday''), [''TS1''])]"
  by code_simp

lemma room_scan: "rooms_at room_a ''TS0'' ''TS1'' = (Some ''R101'', Some ''L1'')"
  by code_simp

lemma room_own_distance: "calculate_room_distance ''R101'' ''R101'' = Inr 0"
  by (simp add: calculate_room_distance_def)

lemma room_section_penalty:
  "check_consecutive_room_distance default_weights [''TS0'', ''TS1''] room_a = Inr 24"
  by code_simp

lemma room_total_penalty:
  "calculate_room_distance_penalty week_loader default_weights room_a room_lectures = Inr 24"
  by code_simp

text \<open>
  Claim C8 (the room distance is taken between the rooms of the adjacent pair) fails on
  the program.  In \<open>room_a\<close> section \<open>S1\<close> has back-to-back sessions at \<open>TS0\<close> and
  \<open>TS1\<close>, both in room \<open>R101\<close>, at distance 0.  The scan over the whole assignment
  finds room \<open>L1\<close> of section \<open>S2\<close> for \<open>TS1\<close>, and the schedule of \<open>S1\<close> is charged
  \<open>3 * 8 = 24\<close>, which is the whole penalty of the assignment.
\<close>

theorem room_distance_uses_foreign_room:
  "check_all_constraints room_a room_lectures \<and>
   group_by_section_and_day week_loader room_a room_lectures =
     [((''S1'', ''Sunday''), [''TS0'', ''TS1'']), ((''S2'', ''Sunday''), [''TS1''])] \<and>
   dict_get room_a ''S1_MTH101_L1'' = Some (''TS0'', ''R101'', ''PROF01'') \<and>
   dict_get room_a ''S1_PHY113_L1'' = Some (''TS1'', ''R101'', ''PROF02'') \<and>
   calculate_room_distance ''R101'' ''R101'' = Inr 0 \<and>
   rooms_at room_a ''TS0'' ''TS1'' = (Some ''R101'', Some ''L1'') \<and>
   check_consecutive_room_distance default_weights [''TS0'', ''TS1''] room_a = Inr 24 \<and>
   calculate_room_distance_penalty week_loader default_weights room_a room_lectures = Inr 24"
  using room_valid room_groups room_scan room_own_distance room_section_penalty
    room_total_penalty
  by (simp add: dict_get_def room_a_def)

lemma balance_counts:
  "section_day_counts week_loader balance_a demo_lectures = [(''S1'', [(''Sunday'', 2)])]"
  by code_simp

lemma week_days:
  "remdups (map Day (timeslots week_loader)) =
     [''Sunday'', ''Monday'', ''Tuesday'', ''Wednesday'', ''Thursday'']"
  by code_simp

lemma std_single: "population_std [2] = 0"
  by (simp add: population_std_def)

lemma std_week: "population_std [2, 0, 0, 0, 0] = 4 / 5"
proof -
  have "population_std [2, 0, 0, 0, 0] = sqrt (16 / 25)"
    by (simp add: population_std_def Let_def power2_eq_square)
  also have "sqrt (16 / 25) = 4 / (5::real)"
    by (rule real_sqrt_unique) (simp_all add: power2_eq_square)
  finally show ?thesis .
qed

text \<open>
  Claim C7 (balance bonus over the per-weekday counts of the week) fails on the
  program.  Section \<open>S1\<close> has both sessions on Sunday.  The program takes the deviation
  of the counts of the days that have a session, here of the single count 2, which is 0,
  and grants the full bonus 25, the same as for one session on each of two days.  With
  the counts of the whole week, 2 and four times 0, the deviation is \<open>4/5\<close> and the bonus
  is 21.
\<close>

theorem balance_bonus_ignores_empty_days:
  "section_day_counts week_loader balance_a demo_lectures = [(''S1'', [(''Sunday'', 2)])] \<and>
   calculate_balance_bonus week_loader default_weights balance_a demo_lectures = 25 \<and>
   calculate_balance_bonus week_loader default_weights balance_b demo_lectures = 25 \<and>
   spec_balance_bonus week_loader default_weights balance_a demo_lectures = 21"
proof -
  have "section_day_counts week_loader balance_b demo_lectures =
          [(''S1'', [(''Sunday'', 1), (''Monday'', 1)])]"
    by code_simp
  then have "calculate_balance_bonus week_loader default_weights balance_b demo_lectures = 25"
    by (simp add: calculate_balance_bonus_def population_std_def default_weights_def)
  moreover
  have "calculate_balance_bonus week_loader default_weights balance_a demo_lectures = 25"
    by (simp add: calculate_balance_bonus_def balance_counts std_single default_weights_def)
  moreover have "map (\<lambda>day. real (dict_get_default [(''Sunday'', 2::nat)] day 0))
          [''Sunday'', ''Monday'', ''Tuesday'', ''Wednesday'', ''Thursday''] = [2, 0, 0, 0, 0]"
    by (simp add: dict_get_default_def)
  then have "spec_balance_bonus week_loader default_weights balance_a demo_lectures = 21"
    by (simp add: spec_balance_bonus_def balance_counts week_days std_week default_weights_def)
  ultimately show ?thesis using balance_counts by simp
qed

end
